theory Spec2Isabelle
  imports Complex_Main "HOL-Library.Word"
begin

section \<open>Data model of camera.c\<close>

text \<open>
  The native side of CameraXSDL3 keeps one \<open>cImage\<close> (the latest camera frame and the
  texture it is uploaded to) and a few file-level variables. Every function body that
  touches the frame fields runs between \<open>SDL_LockMutex\<close> and \<open>SDL_UnlockMutex\<close> on the
  image's mutex, so a body is modelled as one atomic state transformer; the mutex itself
  has no field in the model.

  Representation choices:
  \<^item> \<open>uint8_t* data\<close> is \<open>None\<close> for \<open>NULL\<close> and \<open>Some buf\<close> for an allocated block,
    whose size in bytes is \<open>length buf\<close>;
  \<^item> \<open>size_t length\<close> is a \<open>nat\<close>: it only ever receives the length of a Java array
    (between 0 and \<open>2^31 - 1\<close>), so the conversion from \<open>jsize\<close> never wraps;
  \<^item> \<open>int\<close> and \<open>jint\<close> values (width, height, rotation) are \<open>int\<close>: they are stored,
    compared and converted to \<open>float\<close>, never computed with as integers;
  \<^item> \<open>float\<close> is \<open>f32\<close>, the binary32 values with the rounding of every operation
    (next section).
\<close>

section \<open>Single-precision arithmetic\<close>

text \<open>
  A \<open>float\<close> is an IEEE 754 binary32 value: a finite number (\<open>Finite 0\<close> is \<open>+0\<close>),
  the negative zero, an infinity or a NaN. Every operation computes the exact result and
  rounds it to the nearest binary32 value, ties to the even significand, as the target
  does (\<open>FLT_EVAL_METHOD\<close> 0, default rounding mode). NaNs are not told apart.
\<close>

datatype f32 = Finite real | NegZero | PInf | NInf | NaN

definition pow2 :: "int \<Rightarrow> real" where
  "pow2 e = (if 0 \<le> e then 2 ^ nat e else 1 / 2 ^ nat (- e))"

text \<open>
  \<open>binade_search n lo hi a\<close> is the largest \<open>e\<close> between \<open>lo\<close> and \<open>hi\<close> with
  \<open>2^e \<le> a\<close>, and \<open>lo\<close> if there is none, found by bisection in \<open>n\<close> steps. The
  exponents of binary32 go from -126 to 127, and eight steps cover them.
\<close>

fun binade_search :: "nat \<Rightarrow> int \<Rightarrow> int \<Rightarrow> real \<Rightarrow> int" where
  "binade_search 0 lo hi a = lo"
| "binade_search (Suc n) lo hi a =
     (if lo < hi then
        (let mid = (lo + hi + 1) div 2
         in if pow2 mid \<le> a then binade_search n mid hi a
            else binade_search n lo (mid - 1) a)
      else lo)"

definition binade :: "real \<Rightarrow> int" where
  "binade a = binade_search 8 (- 126) 127 a"

text \<open>The nearest integer, a tie going to the even one.\<close>

definition round_even :: "real \<Rightarrow> int" where
  "round_even y =
     (let f = \<lfloor>y\<rfloor>; d = y - of_int f
      in if d < 1 / 2 then f else if 1 / 2 < d then f + 1 else if even f then f else f + 1)"

text \<open>
  Rounding of an exact result \<open>s\<close>. The spacing of binary32 around \<open>s\<close> is
  \<open>2^(e - 23)\<close> for the binade \<open>e\<close> of \<open>\<bar>s\<bar>\<close> (\<open>2^-149\<close> below \<open>2^-126\<close>); a result
  that rounds to \<open>2^128\<close> or more is an infinity. A result that rounds to zero keeps the
  sign of \<open>s\<close>; an exact zero is negative when \<open>negz\<close> says so.
\<close>

definition round_f32 :: "bool \<Rightarrow> real \<Rightarrow> f32" where
  "round_f32 negz s =
     (let ulp = pow2 (binade \<bar>s\<bar> - 23);
          v = of_int (round_even (s / ulp)) * ulp
      in if pow2 128 \<le> \<bar>v\<bar> then (if s < 0 then NInf else PInf)
         else if v = 0 then (if s < 0 \<or> (s = 0 \<and> negz) then NegZero else Finite 0)
         else Finite v)"

fun signbit :: "f32 \<Rightarrow> bool" where
  "signbit (Finite x) = (x < 0)"
| "signbit NegZero = True"
| "signbit PInf = False"
| "signbit NInf = True"
| "signbit NaN = False"

fun is_finite :: "f32 \<Rightarrow> bool" where
  "is_finite (Finite x) = True"
| "is_finite NegZero = True"
| "is_finite PInf = False"
| "is_finite NInf = False"
| "is_finite NaN = False"

text \<open>The number a finite value stands for; 0 is returned for the others.\<close>

fun valof :: "f32 \<Rightarrow> real" where
  "valof (Finite x) = x"
| "valof NegZero = 0"
| "valof PInf = 0"
| "valof NInf = 0"
| "valof NaN = 0"

definition is_zero :: "f32 \<Rightarrow> bool" where
  "is_zero a = (a = Finite 0 \<or> a = NegZero)"

definition is_inf :: "f32 \<Rightarrow> bool" where
  "is_inf a = (a = PInf \<or> a = NInf)"

definition inf_of :: "bool \<Rightarrow> f32" where
  "inf_of negative = (if negative then NInf else PInf)"

definition zero_of :: "bool \<Rightarrow> f32" where
  "zero_of negative = (if negative then NegZero else Finite 0)"

fun fneg :: "f32 \<Rightarrow> f32" where
  "fneg (Finite x) = (if x = 0 then NegZero else Finite (- x))"
| "fneg NegZero = Finite 0"
| "fneg PInf = NInf"
| "fneg NInf = PInf"
| "fneg NaN = NaN"

definition fmul :: "f32 \<Rightarrow> f32 \<Rightarrow> f32" where
  "fmul a b =
     (if a = NaN \<or> b = NaN then NaN
      else if is_inf a \<or> is_inf b
      then (if is_zero a \<or> is_zero b then NaN else inf_of (signbit a \<noteq> signbit b))
      else round_f32 (signbit a \<noteq> signbit b) (valof a * valof b))"

definition fdiv :: "f32 \<Rightarrow> f32 \<Rightarrow> f32" where
  "fdiv a b =
     (if a = NaN \<or> b = NaN then NaN
      else if is_inf a then (if is_inf b then NaN else inf_of (signbit a \<noteq> signbit b))
      else if is_inf b then zero_of (signbit a \<noteq> signbit b)
      else if is_zero b
      then (if is_zero a then NaN else inf_of (signbit a \<noteq> signbit b))
      else round_f32 (signbit a \<noteq> signbit b) (valof a / valof b))"

definition fadd :: "f32 \<Rightarrow> f32 \<Rightarrow> f32" where
  "fadd a b =
     (if a = NaN \<or> b = NaN then NaN
      else if is_inf a then (if is_inf b \<and> a \<noteq> b then NaN else a)
      else if is_inf b then b
      else round_f32 (signbit a \<and> signbit b) (valof a + valof b))"

definition fsub :: "f32 \<Rightarrow> f32 \<Rightarrow> f32" where
  "fsub a b = fadd a (fneg b)"

text \<open>\<open>a > b\<close>: false as soon as one side is a NaN; the two zeros are equal.\<close>

definition fgt :: "f32 \<Rightarrow> f32 \<Rightarrow> bool" where
  "fgt a b =
     (a \<noteq> NaN \<and> b \<noteq> NaN \<and>
      ((a = PInf \<and> b \<noteq> PInf) \<or> (b = NInf \<and> a \<noteq> NInf) \<or>
       (is_finite a \<and> is_finite b \<and> valof b < valof a)))"

text \<open>The conversion \<open>(float)i\<close> of an \<open>int\<close>.\<close>

definition f32_of_int :: "int \<Rightarrow> f32" where
  "f32_of_int i = round_f32 False (of_int i)"

section \<open>Types of camera.c\<close>

type_synonym uint8_t = "8 word"

text \<open>A texture created by \<open>SDL_CreateTexture\<close> (always NV12, streaming) with its size.\<close>

datatype SDL_Texture = Texture int int

text \<open>\<open>SDL_FRect\<close>; the fields \<open>x, y, w, h\<close> carry the prefix \<open>rect_\<close>.\<close>

record SDL_FRect =
  rect_x :: f32
  rect_y :: f32
  rect_w :: f32
  rect_h :: f32

text \<open>\<open>struct image_s\<close>; the field \<open>length\<close> is \<open>length_c\<close>.\<close>

record cImage =
  texture :: "SDL_Texture option"
  data :: "uint8_t list option"
  length_c :: nat
  width :: int
  height :: int
  videoRatio :: f32
  new :: bool

text \<open>The file-level variables; \<open>image\<close> is \<open>image_c\<close>.\<close>

record globals =
  image_c :: cImage
  mWidth :: int
  mHeight :: int
  mOrientation :: int
  screenRect :: SDL_FRect

datatype SDL_DisplayOrientation =
    SDL_ORIENTATION_UNKNOWN
  | SDL_ORIENTATION_LANDSCAPE
  | SDL_ORIENTATION_LANDSCAPE_FLIPPED
  | SDL_ORIENTATION_PORTRAIT
  | SDL_ORIENTATION_PORTRAIT_FLIPPED

datatype SDL_AppResult = SDL_APP_CONTINUE | SDL_APP_SUCCESS | SDL_APP_FAILURE

text \<open>
  Calls into SDL that a function makes, in order. The pixel pointer of an upload is
  recorded as the whole block it points to, with the pitch.
\<close>

datatype sdl_call =
    Call_Log
  | Call_DestroyTexture SDL_Texture
  | Call_CreateTexture int int
  | Call_UpdateTexture "SDL_Texture option" "uint8_t list option" int
  | Call_RenderTextureRotated SDL_Texture SDL_FRect int
  | Call_RenderClear
  | Call_RenderPresent

text \<open>What the rendering backend answers during one tick.\<close>

record backend =
  CreateTexture_ok :: bool
  UpdateTexture_ok :: bool
  RenderTextureRotated_ok :: bool
  RenderClear_ok :: bool
  RenderPresent_ok :: bool

section \<open>Construction\<close>

text \<open>
  \<open>cImage_New\<close> on success: \<open>calloc\<close> zeroes every field, then the mutex is created.
\<close>

definition cImage_New :: cImage where
  "cImage_New =
     \<lparr>texture = None, data = None, length_c = 0, width = 0, height = 0,
      videoRatio = Finite 0, new = False\<rparr>"

text \<open>
  The variables as their initialisers and a successful \<open>SDL_AppInit\<close> leave them:
  \<open>mWidth = mHeight = 0\<close>, the orientation and the screen rectangle as queried.
\<close>

definition globals_init :: "int \<Rightarrow> SDL_FRect \<Rightarrow> globals" where
  "globals_init orientation rect =
     \<lparr>image_c = cImage_New, mWidth = 0, mHeight = 0, mOrientation = orientation,
      screenRect = rect\<rparr>"

section \<open>getOrientation\<close>

text \<open>
  \<open>getOrientation\<close> takes what \<open>SDL_GetDisplayForWindow\<close> and
  \<open>SDL_GetCurrentDisplayOrientation\<close> answered and the old value of \<open>*orientation\<close>;
  it returns \<open>ret\<close> and the new value of \<open>*orientation\<close>.
\<close>

definition getOrientation ::
  "32 word \<Rightarrow> SDL_DisplayOrientation \<Rightarrow> int \<Rightarrow> bool \<times> int" where
  "getOrientation windowDisplayID currOrientation orientation =
     (if windowDisplayID = 0 then (False, orientation)
      else
        (True,
         case currOrientation of
           SDL_ORIENTATION_UNKNOWN \<Rightarrow> 180
         | SDL_ORIENTATION_LANDSCAPE \<Rightarrow> 180
         | SDL_ORIENTATION_LANDSCAPE_FLIPPED \<Rightarrow> 0
         | SDL_ORIENTATION_PORTRAIT \<Rightarrow> 270
         | SDL_ORIENTATION_PORTRAIT_FLIPPED \<Rightarrow> 90))"

section \<open>calculateRect\<close>

text \<open>
  The parameter \<open>videoRatio\<close> is \<open>ratio\<close>. The literal \<open>2\<close> is converted to \<open>float\<close>.
\<close>

definition calculateRect :: "SDL_FRect \<Rightarrow> int \<Rightarrow> f32 \<Rightarrow> SDL_FRect" where
  "calculateRect displayRect rotation ratio =
     (let mid_x = fadd (rect_x displayRect) (fdiv (rect_w displayRect) (Finite 2));
          mid_y = fadd (rect_y displayRect) (fdiv (rect_h displayRect) (Finite 2));
          adjustedWidth = rect_w displayRect;
          adjustedHeight = rect_h displayRect;
          (adjustedWidth, adjustedHeight) =
            (if rotation = 90 \<or> rotation = 270 then
               (if fgt adjustedHeight (fmul adjustedWidth ratio)
                then (fdiv adjustedHeight ratio, adjustedHeight)
                else (adjustedWidth, fmul adjustedWidth ratio))
             else
               (if fgt adjustedWidth (fmul adjustedHeight ratio)
                then (adjustedWidth, fdiv adjustedWidth ratio)
                else (fmul adjustedHeight ratio, adjustedHeight)));
          (rw, rh) =
            (if rotation = 90 \<or> rotation = 270
             then (adjustedHeight, adjustedWidth)
             else (adjustedWidth, adjustedHeight))
      in \<lparr>rect_x = fsub mid_x (fdiv rw (Finite 2)), rect_y = fsub mid_y (fdiv rh (Finite 2)),
          rect_w = rw, rect_h = rh\<rparr>)"

section \<open>processYUVImage\<close>

text \<open>
  The two ways the JNI copy can bring the process down instead of returning:
  a copy of at least one byte to a \<open>NULL\<close> destination, and a copy longer than the
  destination block.
\<close>

datatype fault = NullDestination | BlockOverrun

text \<open>
  \<open>GetByteArrayRegion(env, yuv_data, 0, data_len, buf)\<close>, the whole array being
  copied: the first \<open>data_len\<close> bytes of the block become the array's bytes, the rest
  of the block keeps its contents. A copy of no bytes touches nothing, also when
  \<open>buf\<close> is \<open>NULL\<close>.
\<close>

definition GetByteArrayRegion ::
  "uint8_t list \<Rightarrow> uint8_t list option \<Rightarrow> fault + uint8_t list option" where
  "GetByteArrayRegion yuv_data buf =
     (case buf of
        None \<Rightarrow> if yuv_data = [] then Inr None else Inl NullDestination
      | Some block \<Rightarrow>
          if length yuv_data \<le> length block
          then Inr (Some (yuv_data @ drop (length yuv_data) block))
          else Inl BlockOverrun)"

text \<open>
  Lines 646 to 652 of \<open>processYUVImage\<close>: the copy into \<open>image->data\<close>, then
  \<open>new\<close>, \<open>width\<close> and \<open>height\<close>.
\<close>

definition copy_and_mark ::
  "uint8_t list \<Rightarrow> int \<Rightarrow> int \<Rightarrow> cImage \<Rightarrow> fault + cImage \<times> sdl_call list" where
  "copy_and_mark yuv_data w h img =
     (case GetByteArrayRegion yuv_data (data img) of
        Inl f \<Rightarrow> Inl f
      | Inr buf \<Rightarrow> Inr (img\<lparr>data := buf, new := True, width := w, height := h\<rparr>, []))"

text \<open>
  \<open>Java_com_example_cameraxsdl3_CameraXsdl3Activity_processYUVImage\<close>, on the image.
  \<open>calloc_ok\<close> says whether \<open>calloc\<close> returns a block, should the function ask for one.
  The result is the fault, or the image and the calls made when the function returns.
  When the array is longer than \<open>length\<close>, \<open>length\<close> is assigned first, the old block is
  freed and the pointer cleared, and only then is the new, zeroed block requested; a
  refused request logs and leaves through \<open>EXIT\<close>.
\<close>

definition processYUVImage ::
  "bool \<Rightarrow> uint8_t list \<Rightarrow> int \<Rightarrow> int \<Rightarrow> cImage \<Rightarrow> fault + cImage \<times> sdl_call list" where
  "processYUVImage calloc_ok yuv_data w h img =
     (let data_len = length yuv_data in
      if data_len > length_c img then
        (let img1 = img\<lparr>length_c := data_len, data := None\<rparr> in
         if calloc_ok
         then copy_and_mark yuv_data w h (img1\<lparr>data := Some (replicate data_len 0)\<rparr>)
         else Inr (img1, [Call_Log]))
      else copy_and_mark yuv_data w h img)"

text \<open>
  A run of submissions with no render tick in between; each carries the answer
  \<open>calloc\<close> would give it. A fault ends the run.
\<close>

type_synonym submission = "bool \<times> uint8_t list \<times> int \<times> int"

fun submit_all :: "submission list \<Rightarrow> cImage \<Rightarrow> fault + cImage" where
  "submit_all [] img = Inr img"
| "submit_all ((calloc_ok, yuv_data, w, h) # rest) img =
     (case processYUVImage calloc_ok yuv_data w h img of
        Inl f \<Rightarrow> Inl f
      | Inr (img', _) \<Rightarrow> submit_all rest img')"

text \<open>The size of the block \<open>data\<close> points to; nothing is allocated behind \<open>NULL\<close>.\<close>

definition capacity :: "cImage \<Rightarrow> nat" where
  "capacity img = (case data img of None \<Rightarrow> 0 | Some block \<Rightarrow> length block)"

section \<open>cImage_TextureUpdate, cImage_Render, SDL_AppIterate\<close>

definition SDL_CreateTexture :: "backend \<Rightarrow> int \<Rightarrow> int \<Rightarrow> SDL_Texture option" where
  "SDL_CreateTexture b w h = (if CreateTexture_ok b then Some (Texture w h) else None)"

text \<open>
  The functions of the render thread return \<open>ret\<close>, the variables and the calls made.

  Lines 176 to 197 of \<open>cImage_TextureUpdate\<close>: when the cached size differs from the
  frame's, the texture is destroyed (if there is one) and created again; a failed
  creation leaves \<open>texture\<close> null and goes to \<open>EXIT\<close> with \<open>ret = false\<close>.
\<close>

definition recreate_texture :: "backend \<Rightarrow> globals \<Rightarrow> bool \<times> globals \<times> sdl_call list" where
  "recreate_texture b g =
     (let me = image_c g in
      if mWidth g \<noteq> width me \<or> mHeight g \<noteq> height me then
        (let destroyed =
               (case texture me of None \<Rightarrow> [] | Some t \<Rightarrow> [Call_DestroyTexture t]);
             calls = destroyed @ [Call_CreateTexture (width me) (height me)]
         in case SDL_CreateTexture b (width me) (height me) of
              None \<Rightarrow> (False, g\<lparr>image_c := me\<lparr>texture := None\<rparr>\<rparr>, calls @ [Call_Log])
            | Some t \<Rightarrow>
                (True,
                 g\<lparr>image_c :=
                      me\<lparr>texture := Some t,
                         videoRatio := fdiv (f32_of_int (width me)) (f32_of_int (height me))\<rparr>,
                   mWidth := width me, mHeight := height me\<rparr>,
                 calls))
      else (True, g, []))"

text \<open>
  Lines 199 to 212: the block is uploaded when \<open>length\<close> is not zero and \<open>new\<close> is
  set; \<open>new\<close> is cleared only after a successful upload.
\<close>

definition upload_new_data :: "backend \<Rightarrow> globals \<Rightarrow> bool \<times> globals \<times> sdl_call list" where
  "upload_new_data b g =
     (let me = image_c g;
          upload = Call_UpdateTexture (texture me) (data me) (width me)
      in
      if length_c me \<noteq> 0 then
        (if new me then
           (if \<not> UpdateTexture_ok b then (False, g, [upload, Call_Log])
            else (True, g\<lparr>image_c := me\<lparr>new := False\<rparr>\<rparr>, [upload]))
         else (True, g, []))
      else (True, g, []))"

definition cImage_TextureUpdate :: "backend \<Rightarrow> globals \<Rightarrow> bool \<times> globals \<times> sdl_call list" where
  "cImage_TextureUpdate b g =
     (case recreate_texture b g of
        (sized, g1, calls1) \<Rightarrow>
          if \<not> sized then (False, g1, calls1)
          else
            (case upload_new_data b g1 of
               (uploaded, g2, calls2) \<Rightarrow> (uploaded, g2, calls1 @ calls2)))"

definition cImage_Render ::
  "backend \<Rightarrow> globals \<Rightarrow> SDL_FRect \<Rightarrow> int \<Rightarrow> bool \<times> globals \<times> sdl_call list" where
  "cImage_Render b g parentRect orientation =
     (case cImage_TextureUpdate b g of
        (updated, g1, calls) \<Rightarrow>
          if \<not> updated then (False, g1, calls)
          else
            (let rect = calculateRect parentRect orientation (videoRatio (image_c g1)) in
             case texture (image_c g1) of
               None \<Rightarrow> (True, g1, calls)
             | Some t \<Rightarrow>
                 if \<not> RenderTextureRotated_ok b
                 then (False, g1,
                       calls @ [Call_RenderTextureRotated t rect orientation, Call_Log])
                 else (True, g1, calls @ [Call_RenderTextureRotated t rect orientation])))"

definition SDL_AppIterate :: "backend \<Rightarrow> globals \<Rightarrow> SDL_AppResult \<times> globals \<times> sdl_call list" where
  "SDL_AppIterate b g =
     (if \<not> RenderClear_ok b then (SDL_APP_FAILURE, g, [Call_RenderClear, Call_Log])
      else
        (case cImage_Render b g (screenRect g) (mOrientation g) of
           (rendered, g1, calls) \<Rightarrow>
             if \<not> rendered then (SDL_APP_FAILURE, g1, Call_RenderClear # calls)
             else if \<not> RenderPresent_ok b
             then (SDL_APP_FAILURE, g1, Call_RenderClear # calls @ [Call_RenderPresent, Call_Log])
             else (SDL_APP_CONTINUE, g1, Call_RenderClear # calls @ [Call_RenderPresent])))"

text \<open>
  The render loop: one \<open>SDL_AppIterate\<close> per backend answer, as long as the result is
  \<open>SDL_APP_CONTINUE\<close>. The result is that of the last tick run.
\<close>

fun render_loop :: "backend list \<Rightarrow> globals \<Rightarrow> SDL_AppResult \<times> globals \<times> sdl_call list" where
  "render_loop [] g = (SDL_APP_CONTINUE, g, [])"
| "render_loop (b # bs) g =
     (case SDL_AppIterate b g of
        (r, g1, calls) \<Rightarrow>
          if r = SDL_APP_CONTINUE
          then (case render_loop bs g1 of (r', g2, calls') \<Rightarrow> (r', g2, calls @ calls'))
          else (r, g1, calls))"

section \<open>Notions used in the statements\<close>

text \<open>The bytes of the block \<open>data\<close> points to; none behind \<open>NULL\<close>.\<close>

definition block_of :: "cImage \<Rightarrow> uint8_t list" where
  "block_of img = (case data img of None \<Rightarrow> [] | Some block \<Rightarrow> block)"

text \<open>\<open>length\<close> is the size of the block: the state every successful call leaves.\<close>

definition consistent :: "cImage \<Rightarrow> bool" where
  "consistent img = (capacity img = length_c img)"

text \<open>A block, if there is one, has \<open>length\<close> bytes: what every return leaves.\<close>

definition block_sized :: "cImage \<Rightarrow> bool" where
  "block_sized img =
     (case data img of None \<Rightarrow> True | Some block \<Rightarrow> length block = length_c img)"

definition frame_size :: "submission \<Rightarrow> nat" where
  "frame_size s = length (fst (snd s))"

text \<open>
  A texture, when there is one, has the cached size; with no texture the cached size is
  still 0 by 0. This holds after initialisation and after every tick that succeeds.
\<close>

definition texture_cached :: "globals \<Rightarrow> bool" where
  "texture_cached g =
     (case texture (image_c g) of
        None \<Rightarrow> mWidth g = 0 \<and> mHeight g = 0
      | Some t \<Rightarrow> t = Texture (mWidth g) (mHeight g))"

text \<open>
  What SDL reads on an upload. An NV12 image of \<open>w\<close> by \<open>h\<close> with \<open>w\<close> bytes to the row
  is \<open>h\<close> rows of luma followed by \<open>(h + 1) div 2\<close> rows of \<open>2 * ((w + 1) div 2)\<close> bytes of
  interleaved chroma. \<open>SDL_UpdateTexture\<close> with a null rectangle reads that many bytes
  from the pointer; \<open>upload_reads\<close> is \<open>None\<close> when there is no texture or no block, when
  the pitch is not the width, or when the block is shorter than that.
\<close>

definition NV12_size :: "int \<Rightarrow> int \<Rightarrow> nat" where
  "NV12_size w h = nat (w * h + 2 * ((w + 1) div 2) * ((h + 1) div 2))"

fun upload_reads :: "sdl_call \<Rightarrow> uint8_t list option" where
  "upload_reads (Call_UpdateTexture (Some (Texture w h)) (Some block) pitch) =
     (if pitch = w \<and> NV12_size w h \<le> length block
      then Some (take (NV12_size w h) block) else None)"
| "upload_reads _ = None"

text \<open>
  Inputs of the evaluations: a backend on which every call succeeds, a portrait and a
  landscape screen, and the variables after initialisation on the portrait screen.
\<close>

abbreviation all_ok :: backend where
  "all_ok \<equiv>
     \<lparr>CreateTexture_ok = True, UpdateTexture_ok = True, RenderTextureRotated_ok = True,
      RenderClear_ok = True, RenderPresent_ok = True\<rparr>"

abbreviation portrait_screen :: SDL_FRect where
  "portrait_screen \<equiv>
     \<lparr>rect_x = Finite 0, rect_y = Finite 0, rect_w = Finite 1080, rect_h = Finite 1920\<rparr>"

abbreviation landscape_screen :: SDL_FRect where
  "landscape_screen \<equiv>
     \<lparr>rect_x = Finite 0, rect_y = Finite 0, rect_w = Finite 1920, rect_h = Finite 1080\<rparr>"

abbreviation started :: globals where
  "started \<equiv> globals_init 270 portrait_screen"

section \<open>Orientation table\<close>

text \<open>
  C8. When the display of the window is found, \<open>getOrientation\<close> succeeds and stores
  180 for an unknown or landscape display, 0 for landscape-flipped, 270 for portrait and
  90 for portrait-flipped; the stored angle is one of 0, 90, 180, 270.
\<close>

theorem getOrientation_table:
  assumes "windowDisplayID \<noteq> 0"
  shows "getOrientation windowDisplayID SDL_ORIENTATION_UNKNOWN old = (True, 180)
       \<and> getOrientation windowDisplayID SDL_ORIENTATION_LANDSCAPE old = (True, 180)
       \<and> getOrientation windowDisplayID SDL_ORIENTATION_LANDSCAPE_FLIPPED old = (True, 0)
       \<and> getOrientation windowDisplayID SDL_ORIENTATION_PORTRAIT old = (True, 270)
       \<and> getOrientation windowDisplayID SDL_ORIENTATION_PORTRAIT_FLIPPED old = (True, 90)
       \<and> snd (getOrientation windowDisplayID currOrientation old) \<in> {0, 90, 180, 270}"
  using assms by (cases currOrientation) (simp_all add: getOrientation_def)

theorem getOrientation_table_witness:
  "(1 :: 32 word) \<noteq> 0
   \<and> getOrientation 1 SDL_ORIENTATION_UNKNOWN 270 = (True, 180)
   \<and> getOrientation 1 SDL_ORIENTATION_LANDSCAPE 270 = (True, 180)
   \<and> getOrientation 1 SDL_ORIENTATION_LANDSCAPE_FLIPPED 270 = (True, 0)
   \<and> getOrientation 1 SDL_ORIENTATION_PORTRAIT 270 = (True, 270)
   \<and> getOrientation 1 SDL_ORIENTATION_PORTRAIT_FLIPPED 270 = (True, 90)
   \<and> snd (getOrientation 1 SDL_ORIENTATION_PORTRAIT_FLIPPED 270) \<in> {0, 90, 180, 270}"
proof -
  have nz: "(1 :: 32 word) \<noteq> 0" by simp
  show ?thesis
    using nz getOrientation_table [OF nz, of 270 SDL_ORIENTATION_PORTRAIT_FLIPPED] by simp
qed

section \<open>Facts about one submission and about runs of submissions\<close>

lemma consistent_cImage_New: "consistent cImage_New"
  by (simp add: consistent_def capacity_def cImage_New_def)

lemma processYUVImage_refused:
  assumes "length_c img < length yuv_data"
  shows "processYUVImage False yuv_data w h img =
           Inr (img\<lparr>length_c := length yuv_data, data := None\<rparr>, [Call_Log])"
  using assms by (simp add: processYUVImage_def)

text \<open>
  No copy runs over the end of the block: from a new image, a run of submissions
  returns or stops at a copy to \<open>NULL\<close>.
\<close>

lemma processYUVImage_block_sized:
  assumes "block_sized img"
  shows "processYUVImage calloc_ok yuv_data w h img \<noteq> Inl BlockOverrun"
    and "processYUVImage calloc_ok yuv_data w h img = Inr (img', calls) \<Longrightarrow> block_sized img'"
  using assms
  by (auto simp: processYUVImage_def copy_and_mark_def GetByteArrayRegion_def block_sized_def
      Let_def split: option.splits if_splits)

lemma submit_all_no_overrun:
  assumes "block_sized img"
  shows "submit_all subs img \<noteq> Inl BlockOverrun"
  using assms
proof (induction subs arbitrary: img)
  case Nil
  then show ?case by simp
next
  case (Cons s subs)
  obtain ok yuv_data w h where s: "s = (ok, yuv_data, w, h)" by (cases s) auto
  show ?case
  proof (cases "processYUVImage ok yuv_data w h img")
    case (Inl f)
    with processYUVImage_block_sized(1) [OF Cons.prems, of ok yuv_data w h] s
    show ?thesis by auto
  next
    case (Inr r)
    obtain img1 calls where r: "r = (img1, calls)" by (cases r)
    from processYUVImage_block_sized(2) [OF Cons.prems] Inr r
    have "block_sized img1" by simp
    from Cons.IH [OF this] Inr r s show ?thesis by simp
  qed
qed

text \<open>One submission whose allocation, if any, succeeds, on a consistent image.\<close>

lemma processYUVImage_stored:
  assumes "consistent img"
  shows "\<exists>img'. processYUVImage True yuv_data w h img = Inr (img', [])
           \<and> consistent img'
           \<and> length_c img' = max (length_c img) (length yuv_data)
           \<and> capacity img \<le> capacity img'
           \<and> new img' \<and> width img' = w \<and> height img' = h
           \<and> take (length yuv_data) (block_of img') = yuv_data"
proof (cases "length_c img < length yuv_data")
  case True
  then show ?thesis
    using assms
    by (simp add: processYUVImage_def copy_and_mark_def GetByteArrayRegion_def
        consistent_def capacity_def block_of_def split: option.splits)
next
  case False
  then show ?thesis
    using assms
    by (cases "data img")
      (simp_all add: processYUVImage_def copy_and_mark_def GetByteArrayRegion_def
        consistent_def capacity_def block_of_def)
qed

text \<open>
  While every allocation succeeds, \<open>length\<close> stays the size of the block, it is the
  largest byte count seen, and the block never gets smaller.
\<close>

lemma submit_all_stored:
  assumes "consistent img" and "\<forall>s \<in> set subs. fst s"
  shows "\<exists>img'. submit_all subs img = Inr img'
           \<and> consistent img'
           \<and> length_c img' = fold max (map frame_size subs) (length_c img)
           \<and> capacity img \<le> capacity img'"
  using assms
proof (induction subs arbitrary: img)
  case Nil
  then show ?case by simp
next
  case (Cons s subs)
  obtain ok yuv_data w h where s: "s = (ok, yuv_data, w, h)" by (cases s) auto
  with Cons.prems have ok: "ok" by simp
  from processYUVImage_stored [OF Cons.prems(1), of yuv_data w h]
  obtain img1 where step: "processYUVImage True yuv_data w h img = Inr (img1, [])"
    and c1: "consistent img1"
    and l1: "length_c img1 = max (length_c img) (length yuv_data)"
    and cap1: "capacity img \<le> capacity img1"
    by blast
  from Cons.prems have "\<forall>s \<in> set subs. fst s" by simp
  from Cons.IH [OF c1 this]
  obtain img' where rest: "submit_all subs img1 = Inr img'"
    and c': "consistent img'"
    and l': "length_c img' = fold max (map frame_size subs) (length_c img1)"
    and cap': "capacity img1 \<le> capacity img'"
    by blast
  have "fold max (map frame_size subs) (length_c img1)
      = fold max (map frame_size (s # subs)) (length_c img)"
    by (simp add: l1 s frame_size_def max.commute)
  with step rest c' l' cap1 cap' ok s show ?case by auto
qed

lemma submit_all_append:
  "submit_all (xs @ ys) img =
     (case submit_all xs img of Inl f \<Rightarrow> Inl f | Inr img1 \<Rightarrow> submit_all ys img1)"
  by (induction xs arbitrary: img) (auto split: sum.splits)

text \<open>A submission leaves the texture and the ratio alone.\<close>

lemma processYUVImage_texture:
  assumes "processYUVImage calloc_ok yuv_data w h img = Inr (img', calls)"
  shows "texture img' = texture img \<and> videoRatio img' = videoRatio img"
  using assms
  by (auto simp: processYUVImage_def copy_and_mark_def Let_def split: if_splits sum.splits)

lemma submit_all_texture:
  assumes "submit_all subs img = Inr img'"
  shows "texture img' = texture img \<and> videoRatio img' = videoRatio img"
  using assms
proof (induction subs arbitrary: img)
  case Nil
  then show ?case by simp
next
  case (Cons s subs)
  obtain ok yuv_data w h where s: "s = (ok, yuv_data, w, h)" by (cases s) auto
  from Cons.prems s obtain img1 calls
    where 1: "processYUVImage ok yuv_data w h img = Inr (img1, calls)"
      and 2: "submit_all subs img1 = Inr img'"
    by (auto split: sum.splits)
  from processYUVImage_texture [OF 1] Cons.IH [OF 2] show ?case by simp
qed

text \<open>
  On a consistent image, a submission with its block granted stores the array in front
  of what the old block held behind that many bytes.
\<close>

lemma processYUVImage_block:
  assumes "consistent img"
  shows "\<exists>img'. processYUVImage True yuv_data w h img = Inr (img', [])
           \<and> block_of img' = yuv_data @ drop (length yuv_data) (block_of img)"
proof (cases "length_c img < length yuv_data")
  case True
  then show ?thesis
    using assms
    by (simp add: processYUVImage_def copy_and_mark_def GetByteArrayRegion_def
        consistent_def capacity_def block_of_def split: option.splits)
next
  case False
  then show ?thesis
    using assms
    by (cases "data img")
      (simp_all add: processYUVImage_def copy_and_mark_def GetByteArrayRegion_def
        consistent_def capacity_def block_of_def)
qed

section \<open>Facts about the render thread\<close>

text \<open>Nothing to do: the size is the cached one and there is no new, non-empty frame.\<close>

lemma cImage_TextureUpdate_idle:
  assumes "\<not> new (image_c g) \<or> length_c (image_c g) = 0"
    and "mWidth g = width (image_c g)" and "mHeight g = height (image_c g)"
  shows "cImage_TextureUpdate b g = (True, g, [])"
  using assms
  by (auto simp: cImage_TextureUpdate_def recreate_texture_def upload_new_data_def Let_def)

text \<open>A new, non-empty frame is uploaded last, from the block, with the width as pitch.\<close>

lemma cImage_TextureUpdate_upload:
  assumes "new (image_c g)" and "length_c (image_c g) \<noteq> 0"
    and "CreateTexture_ok b" and "UpdateTexture_ok b"
  shows "\<exists>g1 calls. cImage_TextureUpdate b g = (True, g1, calls)
           \<and> calls \<noteq> []
           \<and> last calls =
               Call_UpdateTexture (texture (image_c g1)) (data (image_c g)) (width (image_c g))
           \<and> \<not> new (image_c g1)
           \<and> mWidth g1 = width (image_c g) \<and> mHeight g1 = height (image_c g)
           \<and> width (image_c g1) = width (image_c g)
           \<and> height (image_c g1) = height (image_c g)"
  using assms
  by (auto simp: cImage_TextureUpdate_def recreate_texture_def upload_new_data_def
      SDL_CreateTexture_def Let_def)

lemma cImage_Render_fresh:
  "cImage_Render b (globals_init orientation rect) parentRect rotation =
     (True, globals_init orientation rect, [])"
  by (simp add: cImage_Render_def cImage_TextureUpdate_def recreate_texture_def
      upload_new_data_def globals_init_def cImage_New_def Let_def)

lemma SDL_AppIterate_fresh:
  assumes "RenderClear_ok b" and "RenderPresent_ok b"
  shows "SDL_AppIterate b (globals_init orientation rect) =
     (SDL_APP_CONTINUE, globals_init orientation rect, [Call_RenderClear, Call_RenderPresent])"
  using assms by (simp add: SDL_AppIterate_def cImage_Render_fresh)

text \<open>The tick keeps the texture and the cached size together.\<close>

lemma cImage_TextureUpdate_cached:
  assumes "texture_cached g" and "cImage_TextureUpdate b g = (True, g1, calls)"
  shows "texture_cached g1"
  using assms
  by (auto simp: cImage_TextureUpdate_def recreate_texture_def upload_new_data_def
      SDL_CreateTexture_def texture_cached_def Let_def split: if_splits option.splits)

text \<open>
  The upload of a new frame of size other than 0 by 0 goes to a texture of the frame's
  size.
\<close>

lemma cImage_TextureUpdate_sized:
  assumes "texture_cached g" and "new (image_c g)" and "length_c (image_c g) \<noteq> 0"
    and "CreateTexture_ok b" and "UpdateTexture_ok b"
    and "width (image_c g) \<noteq> 0 \<or> height (image_c g) \<noteq> 0"
  shows "\<exists>g1 calls. cImage_TextureUpdate b g = (True, g1, calls)
           \<and> calls \<noteq> []
           \<and> last calls =
               Call_UpdateTexture (Some (Texture (width (image_c g)) (height (image_c g))))
                 (data (image_c g)) (width (image_c g))
           \<and> \<not> new (image_c g1)
           \<and> mWidth g1 = width (image_c g) \<and> mHeight g1 = height (image_c g)"
  using assms
  by (auto simp: cImage_TextureUpdate_def recreate_texture_def upload_new_data_def
      SDL_CreateTexture_def texture_cached_def Let_def split: option.splits)

section \<open>Facts about single-precision arithmetic\<close>

lemma pow2_powr: "pow2 e = 2 powr (real_of_int e)"
proof (cases "0 \<le> e")
  case True
  then show ?thesis
    by (simp add: pow2_def powr_realpow [symmetric])
next
  case False
  then have "2 powr (real_of_int e) = 1 / 2 powr (real (nat (- e)))"
    by (simp add: powr_minus_divide [symmetric])
  then show ?thesis
    using False by (simp add: pow2_def powr_realpow [symmetric])
qed

lemma pow2_pos: "0 < pow2 e"
  by (simp add: pow2_powr)

lemma pow2_add: "pow2 (a + b) = pow2 a * pow2 b"
  by (simp add: pow2_powr powr_add)

lemma pow2_mono: "a \<le> b \<Longrightarrow> pow2 a \<le> pow2 b"
  by (simp add: pow2_powr)

lemma pow2_less_iff: "pow2 a < pow2 b \<longleftrightarrow> a < b"
  by (simp add: pow2_powr)

lemma pow2_le_iff: "pow2 a \<le> pow2 b \<longleftrightarrow> a \<le> b"
  by (simp add: pow2_powr)

lemma binade_search_range:
  "lo \<le> hi \<Longrightarrow> lo \<le> binade_search n lo hi a \<and> binade_search n lo hi a \<le> hi"
proof (induction n arbitrary: lo hi)
  case 0
  then show ?case by simp
next
  case (Suc n)
  show ?case
  proof (cases "lo < hi")
    case True
    let ?mid = "(lo + hi + 1) div 2"
    have m: "lo < ?mid" "?mid \<le> hi" using True by auto
    from Suc.IH [of ?mid hi] Suc.IH [of lo "?mid - 1"] m True show ?thesis
      by (auto simp: Let_def)
  next
    case False
    with Suc.prems show ?thesis by simp
  qed
qed

lemma binade_search_below:
  "pow2 lo \<le> a \<Longrightarrow> pow2 (binade_search n lo hi a) \<le> a"
  by (induction n arbitrary: lo hi) (auto simp: Let_def)

lemma binade_search_exact:
  assumes "lo \<le> e" and "e \<le> hi" and "hi - lo < 2 ^ n"
    and "pow2 e \<le> a" and "a < pow2 (e + 1)"
  shows "binade_search n lo hi a = e"
  using assms
proof (induction n arbitrary: lo hi)
  case 0
  then show ?case by simp
next
  case (Suc n)
  show ?case
  proof (cases "lo < hi")
    case False
    with Suc.prems show ?thesis by simp
  next
    case True
    let ?mid = "(lo + hi + 1) div 2"
    show ?thesis
    proof (cases "pow2 ?mid \<le> a")
      case le: True
      then have "pow2 ?mid < pow2 (e + 1)" using Suc.prems(5) by linarith
      then have "?mid \<le> e" by (simp add: pow2_less_iff)
      moreover have "hi - ?mid < 2 ^ n" using Suc.prems(3) by simp
      ultimately have "binade_search n ?mid hi a = e"
        using Suc.prems by (intro Suc.IH) auto
      with True le show ?thesis by (simp add: Let_def)
    next
      case gt: False
      then have "pow2 e < pow2 ?mid" using Suc.prems(4) by linarith
      then have "e \<le> ?mid - 1" by (simp add: pow2_less_iff)
      moreover have "?mid - 1 - lo < 2 ^ n" using Suc.prems(3) by simp
      ultimately have "binade_search n lo (?mid - 1) a = e"
        using Suc.prems by (intro Suc.IH) auto
      with True gt show ?thesis by (simp add: Let_def)
    qed
  qed
qed

lemma binade_range: "- 126 \<le> binade a \<and> binade a \<le> 127"
  unfolding binade_def by (rule binade_search_range) simp

lemma binade_below: "pow2 (- 126) \<le> a \<Longrightarrow> pow2 (binade a) \<le> a"
  unfolding binade_def by (rule binade_search_below)

lemma binade_exact:
  assumes "- 126 \<le> e" and "e \<le> 127" and "pow2 e \<le> a" and "a < pow2 (e + 1)"
  shows "binade a = e"
  unfolding binade_def using assms by (intro binade_search_exact) auto

lemma round_even_near: "\<bar>of_int (round_even y) - y\<bar> \<le> 1 / 2"
proof -
  have "of_int \<lfloor>y\<rfloor> \<le> y" "y < of_int \<lfloor>y\<rfloor> + 1" by linarith+
  then show ?thesis
    by (auto simp: round_even_def Let_def)
qed

text \<open>The rounded value is within half the spacing of the exact one.\<close>

lemma round_f32_cases:
  fixes s :: real
  defines "ulp \<equiv> pow2 (binade \<bar>s\<bar> - 23)"
  defines "v \<equiv> of_int (round_even (s / ulp)) * ulp"
  shows "\<bar>v - s\<bar> \<le> ulp / 2"
proof -
  have pos: "0 < ulp" by (simp add: ulp_def pow2_pos)
  have "\<bar>of_int (round_even (s / ulp)) - s / ulp\<bar> \<le> 1 / 2"
    by (rule round_even_near)
  then have "\<bar>of_int (round_even (s / ulp)) - s / ulp\<bar> * ulp \<le> 1 / 2 * ulp"
    using pos by (intro mult_right_mono) auto
  moreover have "(of_int (round_even (s / ulp)) - s / ulp) * ulp = v - s"
    using pos by (simp add: v_def left_diff_distrib)
  then have "\<bar>of_int (round_even (s / ulp)) - s / ulp\<bar> * ulp = \<bar>v - s\<bar>"
    using pos by (metis abs_mult abs_of_pos)
  ultimately show ?thesis by simp
qed

lemma binade_search_low:
  "a < pow2 lo \<Longrightarrow> binade_search n lo hi a = lo"
proof (induction n arbitrary: hi)
  case 0
  then show ?case by simp
next
  case (Suc n)
  show ?case
  proof (cases "lo < hi")
    case True
    then have "pow2 lo \<le> pow2 ((lo + hi + 1) div 2)" by (simp add: pow2_le_iff)
    with Suc.prems have "\<not> pow2 ((lo + hi + 1) div 2) \<le> a" by linarith
    with True Suc.IH [OF Suc.prems] show ?thesis by (simp add: Let_def)
  next
    case False
    then show ?thesis by simp
  qed
qed

lemma binade_low: "a < pow2 (- 126) \<Longrightarrow> binade a = - 126"
  unfolding binade_def by (rule binade_search_low)

text \<open>
  Without overflow the result is finite and within half the spacing of the exact one.
\<close>

lemma round_f32_finite:
  assumes "\<bar>s\<bar> \<le> pow2 127"
  shows "is_finite (round_f32 negz s)
       \<and> \<bar>valof (round_f32 negz s) - s\<bar> \<le> pow2 (binade \<bar>s\<bar> - 23) / 2"
proof -
  define ulp where "ulp = pow2 (binade \<bar>s\<bar> - 23)"
  define v where "v = of_int (round_even (s / ulp)) * ulp"
  have near: "\<bar>v - s\<bar> \<le> ulp / 2"
    unfolding v_def ulp_def by (rule round_f32_cases)
  have "binade \<bar>s\<bar> - 23 \<le> 104" using binade_range [of "\<bar>s\<bar>"] by simp
  then have "ulp \<le> pow2 104" unfolding ulp_def by (rule pow2_mono)
  with near assms have "\<bar>v\<bar> \<le> pow2 127 + pow2 104 / 2" by linarith
  also have "\<dots> < pow2 128" by (simp add: pow2_def)
  finally have small: "\<not> pow2 128 \<le> \<bar>v\<bar>" by simp
  have "round_f32 negz s =
      (if v = 0 then (if s < 0 \<or> (s = 0 \<and> negz) then NegZero else Finite 0) else Finite v)"
    using small by (simp add: round_f32_def Let_def ulp_def [symmetric] v_def [symmetric])
  then have "is_finite (round_f32 negz s)" and "valof (round_f32 negz s) = v"
    by (auto split: if_splits)
  with near show ?thesis by (simp add: ulp_def)
qed

lemma round_f32_any:
  assumes "\<bar>s\<bar> \<le> pow2 127"
  shows "is_finite (round_f32 negz s)
       \<and> \<bar>valof (round_f32 negz s) - s\<bar> \<le> \<bar>s\<bar> / 2 ^ 24 + 1 / 2 ^ 150"
proof (cases "pow2 (- 126) \<le> \<bar>s\<bar>")
  case True
  have "pow2 (binade \<bar>s\<bar> - 23) = pow2 (binade \<bar>s\<bar>) * pow2 (- 23)"
    using pow2_add [of "binade \<bar>s\<bar>" "- 23"] by simp
  also have "\<dots> \<le> \<bar>s\<bar> * pow2 (- 23)"
    using binade_below [OF True] pow2_pos [of "- 23"] by (intro mult_right_mono) auto
  finally have "pow2 (binade \<bar>s\<bar> - 23) / 2 \<le> \<bar>s\<bar> / 2 ^ 24"
    by (simp add: pow2_def)
  moreover note round_f32_finite [OF assms, of negz]
  ultimately have "\<bar>valof (round_f32 negz s) - s\<bar> \<le> \<bar>s\<bar> / 2 ^ 24"
    by (blast intro: order_trans)
  also have "\<dots> \<le> \<bar>s\<bar> / 2 ^ 24 + 1 / 2 ^ 150" by simp
  finally show ?thesis using round_f32_finite [OF assms, of negz] by simp
next
  case False
  then have "binade \<bar>s\<bar> = - 126" by (intro binade_low) simp
  then have "pow2 (binade \<bar>s\<bar> - 23) / 2 = 1 / 2 ^ 150"
    by (simp add: pow2_def)
  moreover note round_f32_finite [OF assms, of negz]
  ultimately have "\<bar>valof (round_f32 negz s) - s\<bar> \<le> 1 / 2 ^ 150"
    by simp
  also have "\<dots> \<le> \<bar>s\<bar> / 2 ^ 24 + 1 / 2 ^ 150" by simp
  finally show ?thesis using round_f32_finite [OF assms, of negz] by simp
qed

lemma round_f32_normal:
  assumes "pow2 (- 126) \<le> \<bar>s\<bar>" and "\<bar>s\<bar> \<le> pow2 127"
  shows "\<exists>v. round_f32 negz s = Finite v \<and> \<bar>v - s\<bar> \<le> \<bar>s\<bar> / 2 ^ 24"
proof -
  have "pow2 (binade \<bar>s\<bar> - 23) = pow2 (binade \<bar>s\<bar>) * pow2 (- 23)"
    using pow2_add [of "binade \<bar>s\<bar>" "- 23"] by simp
  also have "\<dots> \<le> \<bar>s\<bar> * pow2 (- 23)"
    using binade_below [OF assms(1)] pow2_pos [of "- 23"] by (intro mult_right_mono) auto
  finally have "pow2 (binade \<bar>s\<bar> - 23) / 2 \<le> \<bar>s\<bar> / 2 ^ 24"
    by (simp add: pow2_def)
  moreover note round_f32_finite [OF assms(2), of negz]
  ultimately have fin: "is_finite (round_f32 negz s)"
    and near: "\<bar>valof (round_f32 negz s) - s\<bar> \<le> \<bar>s\<bar> / 2 ^ 24"
    by (blast intro: order_trans)+
  have "0 < \<bar>s\<bar>" using assms(1) pow2_pos [of "- 126"] by linarith
  then have "\<bar>s\<bar> / 2 ^ 24 < \<bar>s\<bar>" by simp
  with near have "valof (round_f32 negz s) \<noteq> 0" by auto
  with fin near show ?thesis
    by (cases "round_f32 negz s") auto
qed

lemma fmul_near:
  assumes "pow2 (- 126) \<le> \<bar>a * b\<bar>" and "\<bar>a * b\<bar> \<le> pow2 127"
  shows "\<exists>v. fmul (Finite a) (Finite b) = Finite v \<and> \<bar>v - a * b\<bar> \<le> \<bar>a * b\<bar> / 2 ^ 24"
  using round_f32_normal [OF assms] by (simp add: fmul_def is_inf_def)

lemma fdiv_near:
  assumes "b \<noteq> 0" and "pow2 (- 126) \<le> \<bar>a / b\<bar>" and "\<bar>a / b\<bar> \<le> pow2 127"
  shows "\<exists>v. fdiv (Finite a) (Finite b) = Finite v \<and> \<bar>v - a / b\<bar> \<le> \<bar>a / b\<bar> / 2 ^ 24"
  using round_f32_normal [OF assms(2,3)] assms(1)
  by (simp add: fdiv_def is_inf_def is_zero_def)

lemma fadd_near:
  assumes "is_finite A" and "is_finite B" and "\<bar>valof A + valof B\<bar> \<le> pow2 127"
  shows "is_finite (fadd A B)
       \<and> \<bar>valof (fadd A B) - (valof A + valof B)\<bar>
           \<le> \<bar>valof A + valof B\<bar> / 2 ^ 24 + 1 / 2 ^ 150"
proof -
  have "fadd A B = round_f32 (signbit A \<and> signbit B) (valof A + valof B)"
    using assms(1,2) by (cases A; cases B) (simp_all add: fadd_def is_inf_def)
  with round_f32_any [OF assms(3)] show ?thesis by simp
qed

lemma ratio_of_quotient:
  fixes A r q :: real
  assumes "0 < A" and "0 < r" and "\<bar>q - A / r\<bar> \<le> (A / r) / 2 ^ 24"
  shows "0 < q \<and> \<bar>A / q - r\<bar> \<le> r / 2 ^ 23"
proof -
  define c where "c = A / r"
  have c: "0 < c" using assms by (simp add: c_def)
  have near: "\<bar>q - c\<bar> \<le> c / 2 ^ 24" using assms(3) by (simp add: c_def)
  have near': "\<bar>q - c\<bar> \<le> c / 16777216" using near by simp
  have q: "0 < q" using near' c by linarith
  have half: "c \<le> 2 * q" using near' c by linarith
  have A: "A = c * r" using assms by (simp add: c_def)
  have "A - r * q = r * (c - q)" by (simp add: A right_diff_distrib)
  then have "\<bar>A - r * q\<bar> = r * \<bar>c - q\<bar>"
    using assms(2) by (simp add: abs_mult)
  also have "\<dots> \<le> r * (c / 2 ^ 24)"
    using near assms(2) by (intro mult_left_mono) (auto simp: abs_minus_commute)
  also have "\<dots> \<le> r * (2 * q / 2 ^ 24)"
    using half assms(2) by (intro mult_left_mono) (auto simp: divide_right_mono)
  also have "\<dots> = r / 2 ^ 23 * q" by simp
  finally have "\<bar>A - r * q\<bar> / q \<le> r / 2 ^ 23"
    using q by (simp add: pos_divide_le_eq)
  moreover have "A / q - r = (A - r * q) / q"
    using q by (simp add: diff_divide_distrib)
  then have "\<bar>A - r * q\<bar> / q = \<bar>A / q - r\<bar>"
    using q by (simp add: abs_divide)
  ultimately show ?thesis using q by simp
qed

lemma ratio_of_product:
  fixes B r p :: real
  assumes "0 < B" and "0 < r" and "\<bar>p - B * r\<bar> \<le> (B * r) / 2 ^ 24"
  shows "0 < p \<and> \<bar>p / B - r\<bar> \<le> r / 2 ^ 23"
proof -
  have br: "0 < B * r" using assms by simp
  then have "(B * r) / 2 ^ 24 < B * r" by simp
  with assms(3) have p: "0 < p" by linarith
  have "p / B - r = (p - B * r) / B"
    using assms(1) by (simp add: diff_divide_distrib)
  then have "\<bar>p / B - r\<bar> = \<bar>p - B * r\<bar> / B"
    using assms(1) by (simp add: abs_divide)
  also have "\<dots> \<le> (B * r) / 2 ^ 24 / B"
    using assms(1,3) by (intro divide_right_mono) auto
  also have "\<dots> = r / 2 ^ 24" using assms(1) by simp
  also have "\<dots> \<le> r / 2 ^ 23" using assms(2) by (simp add: field_simps)
  finally show ?thesis using p by simp
qed

lemma pow2_126: "pow2 (- 126) \<le> 1 / 2 ^ 34" and pow2_127: "2 ^ 66 \<le> pow2 127"
  by (simp_all add: pow2_def)

lemma in_normal_range:
  fixes c :: real
  assumes "1 / 2 ^ 32 \<le> c" and "c \<le> 2 ^ 64"
  shows "pow2 (- 126) \<le> \<bar>c\<bar>" and "\<bar>c\<bar> \<le> pow2 127" and "0 < c"
proof -
  have "(0 :: real) < 1 / 2 ^ 32" by simp
  from this assms(1) show pos: "0 < c" by (rule less_le_trans)
  have "pow2 (- 126) \<le> 1 / 2 ^ 34" by (rule pow2_126)
  also have "\<dots> \<le> (1 :: real) / 2 ^ 32" by simp
  also note assms(1)
  finally show "pow2 (- 126) \<le> \<bar>c\<bar>" using pos by simp
  have "c \<le> (2 :: real) ^ 66" using assms(2) by simp
  also note pow2_127
  finally show "\<bar>c\<bar> \<le> pow2 127" using pos by simp
qed

lemma quotient_rounded:
  fixes A r :: real
  assumes "1 \<le> A" and "A \<le> 2 ^ 32" and "1 / 2 ^ 32 \<le> r" and "r \<le> 2 ^ 32"
  shows "\<exists>q. fdiv (Finite A) (Finite r) = Finite q \<and> 1 / 2 ^ 33 \<le> q \<and> q \<le> 2 ^ 65
           \<and> \<bar>A / q - r\<bar> \<le> r / 2 ^ 23"
proof -
  have r: "0 < r" using assms(3) by (rule less_le_trans [rotated]) simp
  have lo: "1 / 2 ^ 32 \<le> A / r"
    using assms r by (simp add: pos_le_divide_eq)
  have "A \<le> 2 ^ 64 * r"
  proof -
    have "A \<le> 2 ^ 64 * (1 / 2 ^ 32)" using assms(2) by simp
    also have "\<dots> \<le> 2 ^ 64 * r" using assms(3) by (intro mult_left_mono) auto
    finally show ?thesis .
  qed
  then have hi: "A / r \<le> 2 ^ 64"
    using r by (simp add: pos_divide_le_eq)
  note rng = in_normal_range [OF lo hi]
  have pos: "0 < A / r" by (rule rng(3))
  from fdiv_near [of r A, OF _ rng(1,2)] r
  obtain q where q: "fdiv (Finite A) (Finite r) = Finite q"
    and near: "\<bar>q - A / r\<bar> \<le> \<bar>A / r\<bar> / 2 ^ 24"
    by auto
  from near pos have near': "\<bar>q - A / r\<bar> \<le> (A / r) / 2 ^ 24" by simp
  have "0 < A" using assms(1) by linarith
  from ratio_of_quotient [OF this r near']
  have ratio: "\<bar>A / q - r\<bar> \<le> r / 2 ^ 23" by simp
  define c where "c = A / r"
  have near'': "\<bar>q - c\<bar> \<le> c / 16777216" using near' by (simp add: c_def)
  have lo': "1 / 4294967296 \<le> c" and hi': "c \<le> 18446744073709551616"
    using lo hi by (simp_all add: c_def)
  have "1 / 8589934592 \<le> q" and "q \<le> 36893488147419103232"
    using near'' lo' hi' by linarith+
  with q ratio show ?thesis by simp
qed

lemma product_rounded:
  fixes B r :: real
  assumes "1 \<le> B" and "B \<le> 2 ^ 32" and "1 / 2 ^ 32 \<le> r" and "r \<le> 2 ^ 32"
  shows "\<exists>p. fmul (Finite B) (Finite r) = Finite p \<and> 1 / 2 ^ 33 \<le> p \<and> p \<le> 2 ^ 65
           \<and> \<bar>p / B - r\<bar> \<le> r / 2 ^ 23"
proof -
  have r: "0 < r" using assms(3) by (rule less_le_trans [rotated]) simp
  have "1 * (1 / 2 ^ 32) \<le> B * r"
    using assms by (intro mult_mono) auto
  then have lo: "1 / 2 ^ 32 \<le> B * r" by simp
  have "B * r \<le> 2 ^ 32 * 2 ^ 32"
    using assms r by (intro mult_mono) auto
  then have hi: "B * r \<le> 2 ^ 64" by simp
  note rng = in_normal_range [OF lo hi]
  have pos: "0 < B * r" by (rule rng(3))
  from fmul_near [OF rng(1,2)]
  obtain p where p: "fmul (Finite B) (Finite r) = Finite p"
    and near: "\<bar>p - B * r\<bar> \<le> \<bar>B * r\<bar> / 2 ^ 24"
    by auto
  from near pos have near': "\<bar>p - B * r\<bar> \<le> (B * r) / 2 ^ 24" by simp
  have "0 < B" using assms(1) by linarith
  from ratio_of_product [OF this r near']
  have ratio: "\<bar>p / B - r\<bar> \<le> r / 2 ^ 23" by simp
  define c where "c = B * r"
  have near'': "\<bar>p - c\<bar> \<le> c / 16777216" using near' by (simp add: c_def)
  have lo': "1 / 4294967296 \<le> c" and hi': "c \<le> 18446744073709551616"
    using lo hi by (simp_all add: c_def)
  have "1 / 8589934592 \<le> p" and "p \<le> 36893488147419103232"
    using near'' lo' hi' by linarith+
  with p ratio show ?thesis by simp
qed

lemma half_rounded:
  fixes w :: real
  assumes "1 / 2 ^ 33 \<le> w" and "w \<le> 2 ^ 65"
  shows "\<exists>b. fdiv (Finite w) (Finite 2) = Finite b \<and> \<bar>b - w / 2\<bar> \<le> (w / 2) / 2 ^ 24"
proof -
  define c where "c = w / 2"
  have pos: "0 < c" using assms(1) by (simp add: c_def; linarith?)
  have "pow2 (- 126) \<le> 1 / 2 ^ 34" by (rule pow2_126)
  also have "\<dots> \<le> c" using assms(1) by (simp add: c_def)
  finally have lo: "pow2 (- 126) \<le> \<bar>c\<bar>" using pos by simp
  have "c \<le> 2 ^ 66" using assms(2) by (simp add: c_def)
  also note pow2_127
  finally have hi: "\<bar>c\<bar> \<le> pow2 127" using pos by simp
  from fdiv_near [of 2 w] lo hi pos show ?thesis
    by (simp add: c_def)
qed

text \<open>
  The left edge computed from the centre line of the screen and the half width of the
  rectangle: four roundings away from \<open>X + W / 2 - w / 2\<close>.
\<close>

lemma centre_near:
  fixes X W w :: real
  assumes "\<bar>X\<bar> \<le> 2 ^ 32" and "1 \<le> W" and "W \<le> 2 ^ 32"
    and "1 / 2 ^ 33 \<le> w" and "w \<le> 2 ^ 65"
  defines "x \<equiv> fsub (fadd (Finite X) (fdiv (Finite W) (Finite 2))) (fdiv (Finite w) (Finite 2))"
  shows "is_finite x \<and> \<bar>valof x + w / 2 - (X + W / 2)\<bar> \<le> (\<bar>X\<bar> + W + w) / 2 ^ 22"
proof -
  define d :: real where "d = 1 / 2 ^ 150"
  have d: "0 \<le> d" "d \<le> 1 / 1099511627776" by (simp_all add: d_def)
  have X: "\<bar>X\<bar> \<le> 4294967296" using assms(1) by simp
  have W: "W \<le> 4294967296" using assms(3) by simp
  have "(0 :: real) < 1 / 2 ^ 33" by simp
  from this assms(4) have w_pos: "0 < w" by (rule less_le_trans)
  have w_le: "w \<le> 36893488147419103232" using assms(5) by simp
  note w = w_pos w_le
  have big: "(73786976294838206464 :: real) \<le> pow2 127" using pow2_127 by simp
  have "1 / 2 ^ 33 \<le> W" by (rule order_trans [OF _ assms(2)]) simp
  moreover have "W \<le> 2 ^ 65" by (rule order_trans [OF assms(3)]) simp
  ultimately obtain a where a: "fdiv (Finite W) (Finite 2) = Finite a"
    and a_near: "\<bar>a - W / 2\<bar> \<le> (W / 2) / 16777216"
    using half_rounded [of W] by auto
  obtain b where b: "fdiv (Finite w) (Finite 2) = Finite b"
    and b_near: "\<bar>b - w / 2\<bar> \<le> (w / 2) / 16777216"
    using half_rounded [OF assms(4,5)] by auto
  have a_rng: "0 \<le> a" "a \<le> W" using a_near assms(2) by linarith+
  have b_rng: "0 < b" "b \<le> w" using b_near w(1) by linarith+
  define m where "m = fadd (Finite X) (Finite a)"
  have "\<bar>valof (Finite X) + valof (Finite a)\<bar> \<le> pow2 127"
    using X W a_rng big by (simp; linarith?)
  from fadd_near [OF _ _ this]
  have m_fin: "is_finite m"
    and m_near: "\<bar>valof m - (X + a)\<bar> \<le> \<bar>X + a\<bar> / 16777216 + d"
    by (simp_all add: m_def d_def)
  have xa: "\<bar>X + a\<bar> \<le> \<bar>X\<bar> + W" using a_rng by linarith
  have "\<bar>valof m\<bar> \<le> \<bar>valof m - (X + a)\<bar> + \<bar>X + a\<bar>" by linarith
  also have "\<dots> \<le> \<bar>X + a\<bar> / 16777216 + d + \<bar>X + a\<bar>" using m_near by linarith
  also have "\<dots> \<le> 2 * \<bar>X + a\<bar> + d" by simp
  also have "\<dots> \<le> 2 * (\<bar>X\<bar> + W) + d" using xa by simp
  finally have m_rng: "\<bar>valof m\<bar> \<le> 2 * (\<bar>X\<bar> + W) + d" .
  have x_eq: "x = fadd m (Finite (- b))"
    using b_rng(1) by (simp add: x_def a b m_def fsub_def)
  have "\<bar>valof m + valof (Finite (- b))\<bar> \<le> pow2 127"
    using m_rng X W w b_rng d big by (simp; linarith?)
  from fadd_near [OF m_fin _ this]
  have x_fin: "is_finite x"
    and x_near: "\<bar>valof x - (valof m - b)\<bar> \<le> \<bar>valof m - b\<bar> / 16777216 + d"
    by (simp_all add: x_eq d_def)
  have "\<bar>valof m - b\<bar> \<le> \<bar>valof m\<bar> + b" using b_rng(1) by linarith
  also have "\<dots> \<le> 2 * (\<bar>X\<bar> + W) + d + w" using m_rng b_rng(2) by linarith
  finally have mb: "\<bar>valof m - b\<bar> \<le> 2 * (\<bar>X\<bar> + W) + d + w" .
  have "\<bar>valof m - b\<bar> / 16777216 \<le> (2 * (\<bar>X\<bar> + W) + d + w) / 16777216"
    using mb by (rule divide_right_mono) simp
  with x_near
  have e1: "\<bar>valof x - (valof m - b)\<bar> \<le> (2 * (\<bar>X\<bar> + W) + d + w) / 16777216 + d"
    by linarith
  have "\<bar>X + a\<bar> / 16777216 \<le> (\<bar>X\<bar> + W) / 16777216"
    using xa by (rule divide_right_mono) simp
  with m_near
  have e2: "\<bar>valof m - (X + a)\<bar> \<le> (\<bar>X\<bar> + W) / 16777216 + d"
    by linarith
  have "\<bar>valof x + w / 2 - (X + W / 2)\<bar>
      \<le> \<bar>valof x - (valof m - b)\<bar> + \<bar>valof m - (X + a)\<bar> + \<bar>a - W / 2\<bar> + \<bar>b - w / 2\<bar>"
    by linarith
  also have "\<dots> \<le> (2 * (\<bar>X\<bar> + W) + d + w) / 16777216 + d + ((\<bar>X\<bar> + W) / 16777216 + d)
      + (W / 2) / 16777216 + (w / 2) / 16777216"
    using e1 e2 a_near b_near by linarith
  also have "\<dots> \<le> (\<bar>X\<bar> + W + w) / 4194304"
  proof -
    have "0 \<le> \<bar>X\<bar>" by simp
    with d assms(2) w(1) show ?thesis by (simp add: field_simps; linarith?)
  qed
  finally show ?thesis using x_fin by simp
qed

lemma calculateRect_edges:
  "rect_x (calculateRect d rotation ratio) =
     fsub (fadd (rect_x d) (fdiv (rect_w d) (Finite 2)))
       (fdiv (rect_w (calculateRect d rotation ratio)) (Finite 2))"
  "rect_y (calculateRect d rotation ratio) =
     fsub (fadd (rect_y d) (fdiv (rect_h d) (Finite 2)))
       (fdiv (rect_h (calculateRect d rotation ratio)) (Finite 2))"
  by (simp_all add: calculateRect_def Let_def split: prod.splits)

lemma calculateRect_size:
  fixes W H r :: real and x0 y0 :: f32 and rotation :: int
  assumes "1 \<le> W" and "W \<le> 2 ^ 32" and "1 \<le> H" and "H \<le> 2 ^ 32"
    and "1 / 2 ^ 32 \<le> r" and "r \<le> 2 ^ 32"
  defines "R \<equiv> calculateRect \<lparr>rect_x = x0, rect_y = y0, rect_w = Finite W, rect_h = Finite H\<rparr>
                 rotation (Finite r)"
  shows "\<exists>w h. rect_w R = Finite w \<and> rect_h R = Finite h
           \<and> 1 / 2 ^ 33 \<le> w \<and> w \<le> 2 ^ 65 \<and> 1 / 2 ^ 33 \<le> h \<and> h \<le> 2 ^ 65
           \<and> \<bar>w / h - r\<bar> \<le> r / 2 ^ 23"
proof -
  obtain pW where pW: "fmul (Finite W) (Finite r) = Finite pW"
    "1 / 2 ^ 33 \<le> pW" "pW \<le> 2 ^ 65" "\<bar>pW / W - r\<bar> \<le> r / 2 ^ 23"
    using product_rounded [OF assms(1,2,5,6)] by blast
  obtain pH where pH: "fmul (Finite H) (Finite r) = Finite pH"
    "1 / 2 ^ 33 \<le> pH" "pH \<le> 2 ^ 65" "\<bar>pH / H - r\<bar> \<le> r / 2 ^ 23"
    using product_rounded [OF assms(3,4,5,6)] by blast
  obtain qW where qW: "fdiv (Finite W) (Finite r) = Finite qW"
    "1 / 2 ^ 33 \<le> qW" "qW \<le> 2 ^ 65" "\<bar>W / qW - r\<bar> \<le> r / 2 ^ 23"
    using quotient_rounded [OF assms(1,2,5,6)] by blast
  obtain qH where qH: "fdiv (Finite H) (Finite r) = Finite qH"
    "1 / 2 ^ 33 \<le> qH" "qH \<le> 2 ^ 65" "\<bar>H / qH - r\<bar> \<le> r / 2 ^ 23"
    using quotient_rounded [OF assms(3,4,5,6)] by blast
  have W: "1 / 2 ^ 33 \<le> W" "W \<le> 2 ^ 65"
    by (rule order_trans [OF _ assms(1)], simp) (rule order_trans [OF assms(2)], simp)
  have H: "1 / 2 ^ 33 \<le> H" "H \<le> 2 ^ 65"
    by (rule order_trans [OF _ assms(3)], simp) (rule order_trans [OF assms(4)], simp)
  consider
      (a) "rect_w R = Finite H" "rect_h R = Finite qH"
    | (b) "rect_w R = Finite pW" "rect_h R = Finite W"
    | (c) "rect_w R = Finite W" "rect_h R = Finite qW"
    | (d) "rect_w R = Finite pH" "rect_h R = Finite H"
    unfolding R_def
    by (cases "rotation = 90 \<or> rotation = 270"; cases "pW < H"; cases "pH < W")
      (simp_all add: calculateRect_def Let_def fgt_def pW(1) pH(1) qW(1) qH(1))
  then show ?thesis
  proof cases
    case a
    with qH H show ?thesis by blast
  next
    case b
    with pW W show ?thesis by blast
  next
    case c
    with qW W show ?thesis by blast
  next
    case d
    with pH H show ?thesis by blast
  qed
qed

text \<open>Unfolding for the evaluation of the arithmetic at given numbers.\<close>

lemmas f32_eval =
  calculateRect_def fadd_def fsub_def fmul_def fdiv_def fgt_def f32_of_int_def
  round_f32_def round_even_def binade_def pow2_def is_inf_def is_zero_def inf_of_def zero_of_def
  Let_def eval_nat_numeral

lemma calculateRect_portrait_270:
  "calculateRect portrait_screen 270 (Finite (3 / 2))
     = \<lparr>rect_x = Finite (- 420), rect_y = Finite 320, rect_w = Finite 1920,
        rect_h = Finite 1280\<rparr>"
  by (simp add: f32_eval)

lemma calculateRect_landscape_180:
  "calculateRect landscape_screen 180 (Finite (3 / 2))
     = \<lparr>rect_x = Finite 0, rect_y = Finite (- 100), rect_w = Finite 1920,
        rect_h = Finite 1280\<rparr>"
  by (simp add: f32_eval)

lemma calculateRect_720_1280:
  "calculateRect
     \<lparr>rect_x = Finite 0, rect_y = Finite 0, rect_w = Finite 720, rect_h = Finite 1280\<rparr> 0
     (Finite (14913081 / 8388608))
     = \<lparr>rect_x = Finite (- (1592889 / 2048)), rect_y = Finite 0,
        rect_w = Finite (2330169 / 1024), rect_h = Finite 1280\<rparr>"
  by (simp add: f32_eval)

lemma calculateRect_empty:
  "calculateRect
     \<lparr>rect_x = Finite 0, rect_y = Finite 0, rect_w = Finite 0, rect_h = Finite 0\<rparr> 0
     (Finite (3 / 2))
     = \<lparr>rect_x = Finite 0, rect_y = Finite 0, rect_w = Finite 0, rect_h = Finite 0\<rparr>"
  by (simp add: f32_eval)

lemma quotients_rounded:
  "fdiv (Finite 1280) (Finite 1920) = Finite (11184811 / 16777216)"
  "fdiv (f32_of_int 1280) (f32_of_int 720) = Finite (14913081 / 8388608)"
  "fdiv (Finite (2330169 / 1024)) (Finite 1280) = Finite (7456541 / 4194304)"
  "fdiv (Finite 0) (Finite 0) = NaN"
  by (simp_all add: f32_eval)

section \<open>The length field\<close>

text \<open>
  C1, as the code has it. \<open>length\<close> is not the byte count of the latest frame: in a run
  of submissions into a new image, all allocations succeeding, \<open>length\<close> is the largest
  byte count submitted so far and equals the size of the block. After a 100-byte and
  then a 50-byte frame the block has 100 bytes and \<open>length\<close> is 100.
\<close>

theorem length_c_is_largest_frame:
  assumes "\<forall>s \<in> set subs. fst s"
  shows "\<exists>img. submit_all subs cImage_New = Inr img
           \<and> length_c img = Max (set (0 # map frame_size subs))
           \<and> capacity img = length_c img"
proof -
  from submit_all_stored [OF consistent_cImage_New assms]
  obtain img where "submit_all subs cImage_New = Inr img" and "consistent img"
    and "length_c img = fold max (map frame_size subs) (length_c cImage_New)"
    by blast
  moreover have "length_c cImage_New = 0" by (simp add: cImage_New_def)
  moreover have "Max (set (0 # map frame_size subs)) = fold max (map frame_size subs) 0"
    by (rule Max.set_eq_fold)
  ultimately show ?thesis
    by (auto simp: consistent_def)
qed

theorem length_c_is_largest_frame_witness:
  "\<exists>img. submit_all [(True, replicate 100 1, 4, 4), (True, replicate 50 2, 4, 4)] cImage_New
            = Inr img
         \<and> length_c img = 100 \<and> capacity img = 100"
proof -
  have "\<forall>s \<in> set [(True, replicate 100 (1 :: uint8_t), 4 :: int, 4 :: int),
                    (True, replicate 50 2, 4, 4)]. fst s"
    by simp
  from length_c_is_largest_frame [OF this] show ?thesis
    by (auto simp: frame_size_def simp del: submit_all.simps)
qed

text \<open>
  C1 as stated fails: after a 100-byte and then a 50-byte frame, \<open>length\<close> is 100,
  not 50.
\<close>

theorem length_after_100_then_50:
  "\<not> isl (submit_all [(True, replicate 100 1, 4, 4), (True, replicate 50 2, 4, 4)] cImage_New)
   \<and> capacity
       (projr (submit_all [(True, replicate 100 1, 4, 4), (True, replicate 50 2, 4, 4)]
          cImage_New)) = 100
   \<and> length_c
       (projr (submit_all [(True, replicate 100 1, 4, 4), (True, replicate 50 2, 4, 4)]
          cImage_New)) = 100
   \<and> length_c
       (projr (submit_all [(True, replicate 100 1, 4, 4), (True, replicate 50 2, 4, 4)]
          cImage_New)) \<noteq> 50"
  by code_simp

section \<open>A refused allocation\<close>

text \<open>
  C9. When the array is longer than \<open>length\<close> and \<open>calloc\<close> returns \<open>NULL\<close>, the function
  logs and returns with \<open>new\<close>, \<open>width\<close> and \<open>height\<close> as they were, \<open>length\<close> already
  raised to the array's length, and \<open>data\<close> null.
\<close>

theorem refused_growth_fields:
  assumes "length_c img < length yuv_data"
  shows "\<exists>img'. processYUVImage False yuv_data w h img = Inr (img', [Call_Log])
           \<and> new img' = new img \<and> width img' = width img \<and> height img' = height img
           \<and> length_c img' = length yuv_data \<and> length_c img < length_c img'
           \<and> data img' = None"
  using assms by (simp add: processYUVImage_refused)

theorem refused_growth_fields_witness:
  "length_c cImage_New < length [1, 2, 3 :: uint8_t]
   \<and> (\<exists>img'. processYUVImage False [1, 2, 3] 1 1 cImage_New = Inr (img', [Call_Log])
         \<and> new img' = False \<and> width img' = 0 \<and> height img' = 0
         \<and> length_c img' = 3 \<and> data img' = None)"
proof -
  have small: "length_c cImage_New < length [1, 2, 3 :: uint8_t]"
    by (simp add: cImage_New_def)
  from refused_growth_fields [OF small, of 1 1] show ?thesis
    by (auto simp: cImage_New_def)
qed

text \<open>
  C5, as the code has it. A refused allocation is logged and the function returns to its
  caller; nothing is reported and the process goes on. When no frame was waiting to be
  uploaded, the next tick returns \<open>SDL_APP_CONTINUE\<close> if the backend's calls succeed.
\<close>

theorem refused_growth_returns:
  assumes "length_c (image_c g) < length yuv_data" and "\<not> new (image_c g)"
    and "RenderClear_ok b" and "CreateTexture_ok b" and "RenderTextureRotated_ok b"
    and "RenderPresent_ok b"
  shows "\<exists>img'. processYUVImage False yuv_data w h (image_c g) = Inr (img', [Call_Log])
           \<and> fst (SDL_AppIterate b (g\<lparr>image_c := img'\<rparr>)) = SDL_APP_CONTINUE"
  using assms
  by (auto simp: processYUVImage_refused SDL_AppIterate_def cImage_Render_def
      cImage_TextureUpdate_def recreate_texture_def upload_new_data_def
      SDL_CreateTexture_def Let_def split: option.splits)

theorem refused_growth_returns_witness:
  "\<exists>img'. processYUVImage False [1, 2, 3] 1 1 (image_c started) = Inr (img', [Call_Log])
         \<and> fst (SDL_AppIterate all_ok (started\<lparr>image_c := img'\<rparr>)) = SDL_APP_CONTINUE"
proof -
  have 1: "length_c (image_c started) < length [1, 2, 3 :: uint8_t]"
    and 2: "\<not> new (image_c started)"
    by (simp_all add: globals_init_def cImage_New_def)
  from refused_growth_returns [OF 1 2, of all_ok 1 1] show ?thesis by simp
qed

text \<open>
  C5 as stated fails: the 3-byte frame is refused its block, the function returns, and
  the tick that follows returns \<open>SDL_APP_CONTINUE\<close>.
\<close>

theorem refused_growth_not_fatal:
  "\<not> isl (processYUVImage False [1, 2, 3] 1 1 cImage_New)
   \<and> snd (projr (processYUVImage False [1, 2, 3] 1 1 cImage_New)) = [Call_Log]
   \<and> fst (SDL_AppIterate all_ok
            (started\<lparr>image_c := fst (projr (processYUVImage False [1, 2, 3] 1 1 cImage_New))\<rparr>))
       = SDL_APP_CONTINUE"
  by (simp add: processYUVImage_def cImage_New_def SDL_AppIterate_def cImage_Render_def
      cImage_TextureUpdate_def recreate_texture_def upload_new_data_def globals_init_def)

text \<open>
  C6 at a refused allocation. A 100-byte frame is stored, then a 200-byte frame is
  refused its block: the 100-byte block is gone (capacity 0), \<open>length\<close> is 200, and a
  third submission of 200 bytes copies to \<open>NULL\<close>.
\<close>

theorem refused_growth_loses_block:
  "capacity (projr (submit_all [(True, replicate 100 1, 4, 4)] cImage_New)) = 100
   \<and> submit_all [(True, replicate 100 1, 4, 4), (False, replicate 200 2, 8, 8)] cImage_New
       = Inr \<lparr>texture = None, data = None, length_c = 200, width = 4, height = 4,
              videoRatio = Finite 0, new = True\<rparr>
   \<and> capacity
       (projr (submit_all [(True, replicate 100 1, 4, 4), (False, replicate 200 2, 8, 8)]
          cImage_New)) = 0
   \<and> submit_all
       [(True, replicate 100 1, 4, 4), (False, replicate 200 2, 8, 8),
        (True, replicate 200 2, 8, 8)] cImage_New
       = Inl NullDestination"
  by code_simp

section \<open>Latest frame and upload\<close>

text \<open>
  C4, as the code has it. After a run of submissions with no tick in between, all
  allocations succeeding, on an image whose \<open>length\<close> is the size of its block: \<open>new\<close>
  is set, \<open>width\<close> and \<open>height\<close> are those of the last submission, the texture is
  untouched, and the block is the last submission's bytes followed by what the block
  held before, behind that many bytes. When \<open>length\<close> is not zero and the size is not 0
  by 0, the next \<open>cImage_TextureUpdate\<close> on a backend that creates and updates textures
  ends with the upload of the block to a texture of the last size, with the last width
  as pitch, clears \<open>new\<close> and caches the last size. When the last submission has at
  least the bytes an NV12 image of its size takes, the upload reads those bytes of the
  last submission and no others.
\<close>

theorem latest_frame_leads_block:
  assumes "consistent img" and "\<forall>s \<in> set subs. fst s"
  shows "\<exists>prev img'.
           submit_all subs img = Inr prev
         \<and> submit_all (subs @ [(True, yuv_data, w, h)]) img = Inr img'
         \<and> consistent img' \<and> texture img' = texture img
         \<and> new img' \<and> width img' = w \<and> height img' = h
         \<and> block_of img' = yuv_data @ drop (length yuv_data) (block_of prev)
         \<and> (\<forall>b g. image_c g = img' \<and> texture_cached g \<and> length_c img' \<noteq> 0
                  \<and> (w \<noteq> 0 \<or> h \<noteq> 0) \<and> CreateTexture_ok b \<and> UpdateTexture_ok b \<longrightarrow>
               (\<exists>g1 calls. cImage_TextureUpdate b g = (True, g1, calls)
                  \<and> calls \<noteq> []
                  \<and> last calls = Call_UpdateTexture (Some (Texture w h)) (data img') w
                  \<and> \<not> new (image_c g1) \<and> mWidth g1 = w \<and> mHeight g1 = h
                  \<and> (NV12_size w h \<le> length yuv_data \<longrightarrow>
                       upload_reads (last calls)
                         = Some (take (NV12_size w h) yuv_data))))"
proof -
  from submit_all_stored [OF assms]
  obtain prev where prev: "submit_all subs img = Inr prev" and cp: "consistent prev"
    by blast
  from processYUVImage_stored [OF cp, of yuv_data w h]
  obtain img' where step: "processYUVImage True yuv_data w h prev = Inr (img', [])"
    and c: "consistent img'" and n: "new img'" and w: "width img' = w"
    and h: "height img' = h"
    by blast
  from processYUVImage_block [OF cp, of yuv_data w h] step
  have block: "block_of img' = yuv_data @ drop (length yuv_data) (block_of prev)"
    by simp
  have run: "submit_all (subs @ [(True, yuv_data, w, h)]) img = Inr img'"
    using prev step by (simp add: submit_all_append)
  have tex: "texture img' = texture img"
    using submit_all_texture [OF run] by simp
  have "\<exists>g1 calls. cImage_TextureUpdate b g = (True, g1, calls)
          \<and> calls \<noteq> []
          \<and> last calls = Call_UpdateTexture (Some (Texture w h)) (data img') w
          \<and> \<not> new (image_c g1) \<and> mWidth g1 = w \<and> mHeight g1 = h
          \<and> (NV12_size w h \<le> length yuv_data \<longrightarrow>
               upload_reads (last calls) = Some (take (NV12_size w h) yuv_data))"
    if g: "image_c g = img'" and cached: "texture_cached g" and nz: "length_c img' \<noteq> 0"
      and size: "w \<noteq> 0 \<or> h \<noteq> 0" and ok: "CreateTexture_ok b" "UpdateTexture_ok b"
    for b g
  proof -
    from cImage_TextureUpdate_sized [OF cached, of b] g n nz size ok w h
    obtain g1 calls where tick: "cImage_TextureUpdate b g = (True, g1, calls)"
      and calls: "calls \<noteq> []"
        "last calls = Call_UpdateTexture (Some (Texture w h)) (data img') w"
      and after: "\<not> new (image_c g1)" "mWidth g1 = w" "mHeight g1 = h"
      by auto
    have "upload_reads (last calls) = Some (take (NV12_size w h) yuv_data)"
      if enough: "NV12_size w h \<le> length yuv_data"
    proof -
      from c nz obtain block where d: "data img' = Some block"
        by (cases "data img'") (auto simp: consistent_def capacity_def)
      then have b: "block = yuv_data @ drop (length yuv_data) (block_of prev)"
        using block by (simp add: block_of_def)
      then have "NV12_size w h \<le> length block" using enough by simp
      moreover have "take (NV12_size w h) block = take (NV12_size w h) yuv_data"
        using enough by (simp add: b)
      ultimately show ?thesis by (simp add: calls(2) d)
    qed
    with tick calls after show ?thesis by blast
  qed
  with prev run c tex n w h block show ?thesis by blast
qed

theorem latest_frame_leads_block_witness:
  "\<exists>prev img' g1 calls.
      submit_all [(True, [1, 1, 1, 1, 1, 1, 1, 1, 1, 1, 1, 1], 2, 4)] cImage_New = Inr prev
    \<and> submit_all
        ([(True, [1, 1, 1, 1, 1, 1, 1, 1, 1, 1, 1, 1], 2, 4)] @ [(True, [2, 2, 2, 2, 2, 2], 2, 2)])
        cImage_New = Inr img'
    \<and> new img' \<and> width img' = 2 \<and> height img' = 2
    \<and> block_of img' = [2, 2, 2, 2, 2, 2] @ drop 6 (block_of prev)
    \<and> cImage_TextureUpdate all_ok (started\<lparr>image_c := img'\<rparr>) = (True, g1, calls)
    \<and> last calls = Call_UpdateTexture (Some (Texture 2 2)) (data img') 2
    \<and> mWidth g1 = 2 \<and> mHeight g1 = 2
    \<and> upload_reads (last calls) = Some [2, 2, 2, 2, 2, 2]"
proof -
  let ?s1 = "(True, [1, 1, 1, 1, 1, 1, 1, 1, 1, 1, 1, 1 :: uint8_t], 2 :: int, 4 :: int)"
  let ?y = "[2, 2, 2, 2, 2, 2 :: uint8_t]"
  have 1: "\<forall>s \<in> set [?s1]. fst s" by simp
  from latest_frame_leads_block [OF consistent_cImage_New 1, of ?y 2 2]
  obtain prev img' where run: "submit_all [?s1] cImage_New = Inr prev"
      "submit_all ([?s1] @ [(True, ?y, 2, 2)]) cImage_New = Inr img'"
    and c: "consistent img'" and tex: "texture img' = texture cImage_New"
    and props: "new img'" "width img' = 2" "height img' = 2"
    and block: "block_of img' = ?y @ drop (length ?y) (block_of prev)"
    and tick: "\<forall>b g. image_c g = img' \<and> texture_cached g \<and> length_c img' \<noteq> 0
                  \<and> ((2 :: int) \<noteq> 0 \<or> (2 :: int) \<noteq> 0)
                  \<and> CreateTexture_ok b \<and> UpdateTexture_ok b \<longrightarrow>
               (\<exists>g1 calls. cImage_TextureUpdate b g = (True, g1, calls)
                  \<and> calls \<noteq> []
                  \<and> last calls = Call_UpdateTexture (Some (Texture 2 2)) (data img') 2
                  \<and> \<not> new (image_c g1) \<and> mWidth g1 = 2 \<and> mHeight g1 = 2
                  \<and> (NV12_size 2 2 \<le> length ?y \<longrightarrow>
                       upload_reads (last calls) = Some (take (NV12_size 2 2) ?y)))"
    by blast
  have len: "length ?y = 6" by simp
  have size: "NV12_size 2 2 = 6" by (simp add: NV12_size_def)
  have "length_c img' = length (block_of img')"
    using c by (simp add: consistent_def capacity_def block_of_def split: option.splits)
  moreover have "length (block_of img') \<noteq> 0" using block by simp
  ultimately have nz: "length_c img' \<noteq> 0" by simp
  have "texture_cached (started\<lparr>image_c := img'\<rparr>)"
    using tex by (simp add: texture_cached_def globals_init_def cImage_New_def)
  with tick nz obtain g1 calls where
    t: "cImage_TextureUpdate all_ok (started\<lparr>image_c := img'\<rparr>) = (True, g1, calls)"
      "last calls = Call_UpdateTexture (Some (Texture 2 2)) (data img') 2"
      "mWidth g1 = 2" "mHeight g1 = 2"
      "NV12_size 2 2 \<le> length ?y \<longrightarrow>
         upload_reads (last calls) = Some (take (NV12_size 2 2) ?y)"
    by (force simp del: upload_reads.simps)
  from t(5) have "upload_reads (last calls) = Some ?y"
    by (simp add: size del: upload_reads.simps)
  with run props block [unfolded len] t(1-4) show ?thesis by blast
qed

text \<open>
  C4 as stated fails: a six-byte 2 by 2 frame, then an array of three bytes submitted as
  a 2 by 2 frame. The tick uploads to a 2 by 2 texture from a block of six bytes, the
  three of the second array and the last three of the first, and a 2 by 2 NV12 image is
  six bytes: the upload reads bytes of the first frame.
\<close>

theorem stale_tail_uploaded:
  "snd (snd (cImage_TextureUpdate all_ok
       (started\<lparr>image_c :=
          projr (submit_all [(True, [1, 1, 1, 1, 1, 1], 2, 2), (True, [2, 2, 2], 2, 2)]
            cImage_New)\<rparr>)))
     = [Call_CreateTexture 2 2,
        Call_UpdateTexture (Some (Texture 2 2)) (Some [2, 2, 2, 1, 1, 1]) 2]
   \<and> NV12_size 2 2 = 6
   \<and> upload_reads (Call_UpdateTexture (Some (Texture 2 2)) (Some [2, 2, 2, 1, 1, 1]) 2)
     = Some [2, 2, 2, 1, 1, 1]"
  by (simp add: processYUVImage_def copy_and_mark_def GetByteArrayRegion_def cImage_New_def
      cImage_TextureUpdate_def recreate_texture_def upload_new_data_def SDL_CreateTexture_def
      globals_init_def NV12_size_def)

text \<open>
  C7, as the code has it. On a new frame with \<open>length\<close> not zero and a backend that
  creates and updates textures, the first \<open>cImage_TextureUpdate\<close> uploads the block and
  clears \<open>new\<close>; the second, whatever the backend, makes no call and changes nothing.
\<close>

theorem upload_once:
  assumes "new (image_c g)" and "length_c (image_c g) \<noteq> 0"
    and "CreateTexture_ok b" and "UpdateTexture_ok b"
  shows "\<exists>g1 calls. cImage_TextureUpdate b g = (True, g1, calls)
           \<and> calls \<noteq> []
           \<and> last calls =
               Call_UpdateTexture (texture (image_c g1)) (data (image_c g)) (width (image_c g))
           \<and> \<not> new (image_c g1)
           \<and> cImage_TextureUpdate b' g1 = (True, g1, [])"
proof -
  from cImage_TextureUpdate_upload [OF assms]
  obtain g1 calls where first: "cImage_TextureUpdate b g = (True, g1, calls)"
    and calls: "calls \<noteq> []"
      "last calls =
         Call_UpdateTexture (texture (image_c g1)) (data (image_c g)) (width (image_c g))"
    and clean: "\<not> new (image_c g1)"
    and cached: "mWidth g1 = width (image_c g)" "mHeight g1 = height (image_c g)"
      "width (image_c g1) = width (image_c g)" "height (image_c g1) = height (image_c g)"
    by blast
  have "cImage_TextureUpdate b' g1 = (True, g1, [])"
    using clean cached by (intro cImage_TextureUpdate_idle) simp_all
  with first calls clean show ?thesis by blast
qed

theorem upload_once_witness:
  "\<exists>g1. cImage_TextureUpdate all_ok
           (started\<lparr>image_c := cImage_New\<lparr>data := Some [7, 7, 7], length_c := 3,
                        width := 1, height := 1, new := True\<rparr>\<rparr>)
         = (True, g1,
            [Call_CreateTexture 1 1,
             Call_UpdateTexture (Some (Texture 1 1)) (Some [7, 7, 7]) 1])
       \<and> \<not> new (image_c g1)
       \<and> cImage_TextureUpdate all_ok g1 = (True, g1, [])"
proof -
  let ?g = "started\<lparr>image_c := cImage_New\<lparr>data := Some [7, 7, 7], length_c := 3,
                        width := 1, height := 1, new := True\<rparr>\<rparr>"
  have "new (image_c ?g)" and "length_c (image_c ?g) \<noteq> 0"
    and "CreateTexture_ok all_ok" and "UpdateTexture_ok all_ok"
    by simp_all
  from upload_once [OF this, of all_ok]
  obtain g1 calls where 1: "cImage_TextureUpdate all_ok ?g = (True, g1, calls)"
    and 2: "\<not> new (image_c g1)" "cImage_TextureUpdate all_ok g1 = (True, g1, [])"
    by blast
  have "snd (snd (cImage_TextureUpdate all_ok ?g))
      = [Call_CreateTexture 1 1, Call_UpdateTexture (Some (Texture 1 1)) (Some [7, 7, 7]) 1]"
    by (simp add: cImage_New_def cImage_TextureUpdate_def recreate_texture_def
        upload_new_data_def SDL_CreateTexture_def globals_init_def)
  with 1 2 show ?thesis by simp
qed

text \<open>
  C7 as stated fails: an empty array makes the image new while \<open>length\<close> stays 0. The
  tick creates the 2 by 2 texture, uploads nothing and leaves \<open>new\<close> set.
\<close>

theorem empty_frame_never_uploaded:
  "processYUVImage True [] 2 2 cImage_New = Inr (cImage_New\<lparr>new := True, width := 2, height := 2\<rparr>, [])
   \<and> snd (snd (cImage_TextureUpdate all_ok
        (started\<lparr>image_c := cImage_New\<lparr>new := True, width := 2, height := 2\<rparr>\<rparr>)))
       = [Call_CreateTexture 2 2]
   \<and> new (image_c (fst (snd (cImage_TextureUpdate all_ok
        (started\<lparr>image_c := cImage_New\<lparr>new := True, width := 2, height := 2\<rparr>\<rparr>)))))"
  by (simp add: processYUVImage_def copy_and_mark_def GetByteArrayRegion_def cImage_New_def
      cImage_TextureUpdate_def recreate_texture_def upload_new_data_def SDL_CreateTexture_def
      globals_init_def)

section \<open>Ticks before the first frame\<close>

text \<open>
  C10. With the image as \<open>cImage_New\<close> leaves it and the cached size 0 by 0, whatever
  the backend answers: \<open>cImage_TextureUpdate\<close> and \<open>cImage_Render\<close> return true, make
  no call (no texture is created, nothing is uploaded, nothing is drawn) and change
  nothing. So every tick of the loop clears and presents only, and returns
  \<open>SDL_APP_CONTINUE\<close> as long as clearing and presenting succeed.
\<close>

theorem fresh_ticks_draw_nothing:
  "cImage_TextureUpdate b (globals_init orientation rect)
     = (True, globals_init orientation rect, [])
   \<and> cImage_Render b (globals_init orientation rect) parentRect rotation
     = (True, globals_init orientation rect, [])
   \<and> ((\<forall>b \<in> set bs. RenderClear_ok b \<and> RenderPresent_ok b) \<longrightarrow>
        render_loop bs (globals_init orientation rect)
          = (SDL_APP_CONTINUE, globals_init orientation rect,
             concat (map (\<lambda>b. [Call_RenderClear, Call_RenderPresent]) bs)))"
proof (intro conjI impI)
  show "cImage_TextureUpdate b (globals_init orientation rect)
      = (True, globals_init orientation rect, [])"
    by (rule cImage_TextureUpdate_idle) (simp_all add: globals_init_def cImage_New_def)
  show "cImage_Render b (globals_init orientation rect) parentRect rotation
      = (True, globals_init orientation rect, [])"
    by (rule cImage_Render_fresh)
  show "render_loop bs (globals_init orientation rect)
      = (SDL_APP_CONTINUE, globals_init orientation rect,
         concat (map (\<lambda>b. [Call_RenderClear, Call_RenderPresent]) bs))"
    if "\<forall>b \<in> set bs. RenderClear_ok b \<and> RenderPresent_ok b"
    using that by (induction bs) (simp_all add: SDL_AppIterate_fresh)
qed

theorem fresh_ticks_draw_nothing_witness:
  "cImage_TextureUpdate all_ok started = (True, started, [])
   \<and> cImage_Render all_ok started portrait_screen 270 = (True, started, [])
   \<and> render_loop [all_ok, all_ok] started
       = (SDL_APP_CONTINUE, started,
          [Call_RenderClear, Call_RenderPresent, Call_RenderClear, Call_RenderPresent])"
  using fresh_ticks_draw_nothing
    [of all_ok 270 portrait_screen portrait_screen 270 "[all_ok, all_ok]"]
  by simp

section \<open>The destination rectangle\<close>

text \<open>
  C2, as the code has it. For a screen with sides between 1 and \<open>2^32\<close> at an origin
  within \<open>2^32\<close> of zero, and a ratio between \<open>2^-32\<close> and \<open>2^32\<close>, the rectangle has
  finite positive sides and a finite position for every rotation, and
  \<^item> its width divided by its height is the ratio up to a relative error of \<open>2^-23\<close>,
    also at rotations 90 and 270;
  \<^item> its centre is the centre of the screen up to \<open>2^-22\<close> times the sum of the origin's
    distance from zero, the side of the screen and the side of the rectangle.
  The quotients and sums of the statement are those of the real numbers the values
  stand for.
\<close>

theorem calculateRect_aspect:
  fixes X Y W H r :: real and rotation :: int
  assumes "\<bar>X\<bar> \<le> 2 ^ 32" and "\<bar>Y\<bar> \<le> 2 ^ 32"
    and "1 \<le> W" and "W \<le> 2 ^ 32" and "1 \<le> H" and "H \<le> 2 ^ 32"
    and "1 / 2 ^ 32 \<le> r" and "r \<le> 2 ^ 32"
  defines "R \<equiv> calculateRect
      \<lparr>rect_x = Finite X, rect_y = Finite Y, rect_w = Finite W, rect_h = Finite H\<rparr>
      rotation (Finite r)"
  shows "\<exists>w h. rect_w R = Finite w \<and> rect_h R = Finite h \<and> 0 < w \<and> 0 < h
           \<and> \<bar>w / h - r\<bar> \<le> r / 2 ^ 23
           \<and> is_finite (rect_x R) \<and> is_finite (rect_y R)
           \<and> \<bar>valof (rect_x R) + w / 2 - (X + W / 2)\<bar> \<le> (\<bar>X\<bar> + W + w) / 2 ^ 22
           \<and> \<bar>valof (rect_y R) + h / 2 - (Y + H / 2)\<bar> \<le> (\<bar>Y\<bar> + H + h) / 2 ^ 22"
proof -
  from calculateRect_size [OF assms(3-8), of "Finite X" "Finite Y" rotation]
  obtain w h where w: "rect_w R = Finite w" "1 / 2 ^ 33 \<le> w" "w \<le> 2 ^ 65"
    and h: "rect_h R = Finite h" "1 / 2 ^ 33 \<le> h" "h \<le> 2 ^ 65"
    and ratio: "\<bar>w / h - r\<bar> \<le> r / 2 ^ 23"
    unfolding R_def by blast
  have tiny: "(0 :: real) < 1 / 2 ^ 33" by simp
  have pos: "0 < w" "0 < h"
    using less_le_trans [OF tiny w(2)] less_le_trans [OF tiny h(2)] by simp_all
  have x: "rect_x R = fsub (fadd (Finite X) (fdiv (Finite W) (Finite 2))) (fdiv (Finite w) (Finite 2))"
    using calculateRect_edges(1)
      [of "\<lparr>rect_x = Finite X, rect_y = Finite Y, rect_w = Finite W, rect_h = Finite H\<rparr>"
        rotation "Finite r"]
    by (simp add: R_def [symmetric] w(1))
  have y: "rect_y R = fsub (fadd (Finite Y) (fdiv (Finite H) (Finite 2))) (fdiv (Finite h) (Finite 2))"
    using calculateRect_edges(2)
      [of "\<lparr>rect_x = Finite X, rect_y = Finite Y, rect_w = Finite W, rect_h = Finite H\<rparr>"
        rotation "Finite r"]
    by (simp add: R_def [symmetric] h(1))
  from centre_near [OF assms(1,3,4) w(2,3)] centre_near [OF assms(2,5,6) h(2,3)]
  show ?thesis
    using w(1) h(1) pos ratio by (simp add: x y)
qed

theorem calculateRect_aspect_witness:
  "\<exists>w h. rect_w (calculateRect portrait_screen 270 (Finite (9586981 / 8388608))) = Finite w
        \<and> rect_h (calculateRect portrait_screen 270 (Finite (9586981 / 8388608))) = Finite h
        \<and> 0 < w \<and> 0 < h
        \<and> \<bar>w / h - 9586981 / 8388608\<bar> \<le> (9586981 / 8388608) / 2 ^ 23
        \<and> \<bar>valof (rect_x (calculateRect portrait_screen 270 (Finite (9586981 / 8388608))))
             + w / 2 - 540\<bar> \<le> (1080 + w) / 2 ^ 22
        \<and> \<bar>valof (rect_y (calculateRect portrait_screen 270 (Finite (9586981 / 8388608))))
             + h / 2 - 960\<bar> \<le> (1920 + h) / 2 ^ 22"
proof -
  have "\<bar>0 :: real\<bar> \<le> 2 ^ 32" and "\<bar>0 :: real\<bar> \<le> 2 ^ 32"
    and "(1 :: real) \<le> 1080" and "(1080 :: real) \<le> 2 ^ 32"
    and "(1 :: real) \<le> 1920" and "(1920 :: real) \<le> 2 ^ 32"
    and "(1 :: real) / 2 ^ 32 \<le> 9586981 / 8388608" and "(9586981 :: real) / 8388608 \<le> 2 ^ 32"
    by simp_all
  from calculateRect_aspect [OF this, of 270] show ?thesis
    by (auto simp del: One_nat_def)
qed

text \<open>
  C2 as stated fails.
  \<^item> On the portrait screen at rotation 270 with ratio 3/2 the rectangle is 1920 by 1280:
    height over width is 2/3, not the ratio, as a quotient of real numbers and as a
    quotient in single precision.
  \<^item> On a 720 by 1280 screen at rotation 0 with the ratio of a 1280 by 720 frame, the
    width is the rounded product of 1280 and the ratio: width over height is not the
    ratio, neither as a quotient of real numbers nor as a quotient in single precision.
  \<^item> On an empty screen the rectangle is empty, and its width over its height is a NaN.
\<close>

theorem calculateRect_rotated_ratio:
  "calculateRect portrait_screen 270 (Finite (3 / 2))
     = \<lparr>rect_x = Finite (- 420), rect_y = Finite 320, rect_w = Finite 1920,
        rect_h = Finite 1280\<rparr>
   \<and> valof (rect_h (calculateRect portrait_screen 270 (Finite (3 / 2))))
       / valof (rect_w (calculateRect portrait_screen 270 (Finite (3 / 2)))) = 2 / 3
   \<and> valof (rect_h (calculateRect portrait_screen 270 (Finite (3 / 2))))
       / valof (rect_w (calculateRect portrait_screen 270 (Finite (3 / 2)))) \<noteq> 3 / 2
   \<and> fdiv (rect_h (calculateRect portrait_screen 270 (Finite (3 / 2))))
        (rect_w (calculateRect portrait_screen 270 (Finite (3 / 2))))
     = Finite (11184811 / 16777216)
   \<and> fdiv (f32_of_int 1280) (f32_of_int 720) = Finite (14913081 / 8388608)
   \<and> calculateRect
        \<lparr>rect_x = Finite 0, rect_y = Finite 0, rect_w = Finite 720, rect_h = Finite 1280\<rparr> 0
        (Finite (14913081 / 8388608))
     = \<lparr>rect_x = Finite (- (1592889 / 2048)), rect_y = Finite 0,
        rect_w = Finite (2330169 / 1024), rect_h = Finite 1280\<rparr>
   \<and> (2330169 / 1024) / 1280 \<noteq> (14913081 / 8388608 :: real)
   \<and> fdiv (Finite (2330169 / 1024)) (Finite 1280) = Finite (7456541 / 4194304)
   \<and> calculateRect
        \<lparr>rect_x = Finite 0, rect_y = Finite 0, rect_w = Finite 0, rect_h = Finite 0\<rparr> 0
        (Finite (3 / 2))
     = \<lparr>rect_x = Finite 0, rect_y = Finite 0, rect_w = Finite 0, rect_h = Finite 0\<rparr>
   \<and> fdiv (Finite 0) (Finite 0) = NaN"
  by (simp add: calculateRect_portrait_270 calculateRect_720_1280 calculateRect_empty
      quotients_rounded)

text \<open>
  C3 on the landscape screen at rotation 180 and on the portrait screen at rotation 270,
  ratio 3/2: the rectangle leaves the screen, by 100 above and below in the first case
  and by 420 left and right in the second.
\<close>

theorem calculateRect_leaves_screen:
  "calculateRect landscape_screen 180 (Finite (3 / 2))
     = \<lparr>rect_x = Finite 0, rect_y = Finite (- 100), rect_w = Finite 1920,
        rect_h = Finite 1280\<rparr>
   \<and> valof (rect_y (calculateRect landscape_screen 180 (Finite (3 / 2))))
       < valof (rect_y landscape_screen)
   \<and> valof (rect_y landscape_screen) + valof (rect_h landscape_screen)
       < valof (rect_y (calculateRect landscape_screen 180 (Finite (3 / 2))))
         + valof (rect_h (calculateRect landscape_screen 180 (Finite (3 / 2))))
   \<and> calculateRect portrait_screen 270 (Finite (3 / 2))
     = \<lparr>rect_x = Finite (- 420), rect_y = Finite 320, rect_w = Finite 1920,
        rect_h = Finite 1280\<rparr>
   \<and> valof (rect_x (calculateRect portrait_screen 270 (Finite (3 / 2))))
       < valof (rect_x portrait_screen)
   \<and> valof (rect_x portrait_screen) + valof (rect_w portrait_screen)
       < valof (rect_x (calculateRect portrait_screen 270 (Finite (3 / 2))))
         + valof (rect_w (calculateRect portrait_screen 270 (Finite (3 / 2))))"
  by (simp add: calculateRect_portrait_270 calculateRect_landscape_180)

end
